theory Spec2Isabelle
  imports Complex_Main "HOL-Library.Word"
begin

unbundle bit_operations_syntax

section \<open>Conventions of the embedding\<close>

text \<open>
  The development embeds the header-only C++ library PixelTree.

  \<^item> \<open>uint8_t\<close> is \<open>8 word\<close>, \<open>uint32_t\<close> is \<open>32 word\<close>, \<open>size_t\<close> is \<open>64 word\<close>.
  \<^item> A value of the C++ type \<open>int\<close> is represented by the mathematical integer it
    denotes (\<open>int\<close>). Conversions between \<open>int\<close> and \<open>size_t\<close> are written out with
    their truncation (\<open>static_cast_int\<close>, \<open>static_cast_size_t\<close>).
  \<^item> \<open>float\<close> is idealised in the tree generator and the renderer: the type variable
    \<open>'f\<close> of sort \<open>floor_ceiling\<close> stands for an ordered field with exact arithmetic
    (\<open>rat\<close>, \<open>real\<close>). In \<open>blend_pixels\<close>, whose result depends on it, every \<open>float\<close>
    operation is rounded to IEEE 754 single precision (\<open>binary32\<close>). NaN and
    infinities are outside the model.
  \<^item> \<open>std::mt19937\<close>, the standard distributions, \<open>std::cos\<close>, \<open>std::sin\<close> and
    \<open>M_PI\<close> belong to the C++ standard library, not to the repository. They are
    parameters of the model, collected in the record \<open>stdlib\<close>.
  \<^item> \<open>std::random_device\<close> is an input: a stream of 32-bit values that is
    threaded through the calls that read it.
  \<^item> A private member \<open>name_\<close> of a class is the record field \<open>m_name\<close>.
  \<^item> \<open>shared_ptr<Branch>\<close> is an index into \<open>all_branches\<close>, the list that holds
    every branch in the order of creation.
\<close>

type_synonym uint8 = "8 word"
type_synonym uint32 = "32 word"
type_synonym size_t = "64 word"

definition static_cast_int :: "size_t \<Rightarrow> int" where
  "static_cast_int n = sint (ucast n :: 32 word)"

definition static_cast_size_t :: "int \<Rightarrow> size_t" where
  "static_cast_size_t i = word_of_int i"

definition INT_MAX :: int where
  "INT_MAX = 2147483647"

definition INT_MIN :: int where
  "INT_MIN = - 2147483648"

section \<open>math_types.hpp\<close>

record 'a Point2D =
  p_x :: 'a
  p_y :: 'a

definition point_add :: "('a::plus) Point2D \<Rightarrow> 'a Point2D \<Rightarrow> 'a Point2D" where
  "point_add a b = \<lparr>p_x = p_x a + p_x b, p_y = p_y a + p_y b\<rparr>"

definition point_scale :: "('a::times) Point2D \<Rightarrow> 'a \<Rightarrow> 'a Point2D" where
  "point_scale a s = \<lparr>p_x = p_x a * s, p_y = p_y a * s\<rparr>"

record 'a Rect2D =
  r_min :: "'a Point2D"
  r_max :: "'a Point2D"

record Color =
  c_r :: uint8
  c_g :: uint8
  c_b :: uint8
  c_a :: uint8

definition rgb :: "uint8 \<Rightarrow> uint8 \<Rightarrow> uint8 \<Rightarrow> Color" where
  "rgb r g b = \<lparr>c_r = r, c_g = g, c_b = b, c_a = 255\<rparr>"

definition to_rgba :: "Color \<Rightarrow> uint32" where
  "to_rgba c = ((push_bit 24 (ucast (c_r c)) OR push_bit 16 (ucast (c_g c)))
                  OR push_bit 8 (ucast (c_b c))) OR ucast (c_a c)"

text \<open>\<open>std::clamp(v, lo, hi)\<close>, as \<open>BoundedValue\<close> applies it on construction and assignment.\<close>

definition clamp :: "('a::linorder) \<Rightarrow> 'a \<Rightarrow> 'a \<Rightarrow> 'a" where
  "clamp v lo hi = (if v < lo then lo else if hi < v then hi else v)"

definition BoundedFloat01 :: "('f::floor_ceiling) \<Rightarrow> 'f" where
  "BoundedFloat01 v = clamp v 0 1"

definition BoundedFloat10 :: "('f::floor_ceiling) \<Rightarrow> 'f" where
  "BoundedFloat10 v = clamp v (1 / 10) 10"

definition BoundedAngle :: "('f::floor_ceiling) \<Rightarrow> 'f" where
  "BoundedAngle v = clamp v 0 360"

text \<open>Conversions from \<open>float\<close>: \<open>static_cast<int>\<close> and \<open>static_cast<uint8_t>\<close> truncate
  towards zero, \<open>std::round\<close> rounds half away from zero.\<close>

definition trunc_int :: "('f::floor_ceiling) \<Rightarrow> int" where
  "trunc_int v = (if 0 \<le> v then \<lfloor>v\<rfloor> else \<lceil>v\<rceil>)"

definition float_to_uint8 :: "('f::floor_ceiling) \<Rightarrow> uint8" where
  "float_to_uint8 v = word_of_int (trunc_int v)"

definition std_round :: "('f::floor_ceiling) \<Rightarrow> 'f" where
  "std_round v = (if 0 \<le> v then of_int \<lfloor>v + 1 / 2\<rfloor> else of_int \<lceil>v - 1 / 2\<rceil>)"

definition std_ceil :: "('f::floor_ceiling) \<Rightarrow> 'f" where
  "std_ceil v = of_int \<lceil>v\<rceil>"

definition uint8_to_float :: "uint8 \<Rightarrow> ('f::floor_ceiling)" where
  "uint8_to_float w = of_nat (unat w)"

text \<open>The result of one \<open>float\<close> operation: the exact value \<open>v\<close> rounded to the nearest
  number of IEEE 754 single precision, ties to the even significand. A normal number
  with exponent \<open>e\<close> (\<open>2 ^ e \<le> \<bar>v\<bar> < 2 ^ (e + 1)\<close>, \<open>- 126 \<le> e \<le> 127\<close>) is a multiple of
  \<open>2 ^ (e - 23)\<close>, a subnormal number one of \<open>2 ^ (- 149)\<close>. Overflow to infinity is not
  modelled; each operation is rounded on its own (no fused multiply-add, no extended
  precision).\<close>

definition round_half_even :: "('f::floor_ceiling) \<Rightarrow> int" where
  "round_half_even v =
     (let n = \<lfloor>v\<rfloor>; r = v - of_int n
      in if r < 1 / 2 then n else if 1 / 2 < r then n + 1 else if even n then n else n + 1)"

fun exponent_up :: "nat \<Rightarrow> ('f::floor_ceiling) \<Rightarrow> int" where
  "exponent_up 0 v = 0"
| "exponent_up (Suc n) v = (if 2 \<le> v then exponent_up n (v / 2) + 1 else 0)"

fun exponent_down :: "nat \<Rightarrow> ('f::floor_ceiling) \<Rightarrow> int" where
  "exponent_down 0 v = 0"
| "exponent_down (Suc n) v = (if v < 1 then exponent_down n (v * 2) - 1 else 0)"

definition binary32_exponent :: "('f::floor_ceiling) \<Rightarrow> int" where
  "binary32_exponent v = (if 1 \<le> \<bar>v\<bar> then exponent_up 127 \<bar>v\<bar> else exponent_down 126 \<bar>v\<bar>)"

definition binary32 :: "('f::floor_ceiling) \<Rightarrow> 'f" where
  "binary32 v =
     (let quantum = 2 powi (binary32_exponent v - 23)
      in of_int (round_half_even (v / quantum)) * quantum)"

section \<open>pixel_buffer.hpp\<close>

record 'p PixelBuffer =
  m_data :: "'p list"
  m_width :: size_t
  m_height :: size_t

datatype error = out_of_range

text \<open>The constructor \<open>PixelBuffer(width, height)\<close>: \<open>width * height\<close> value-initialised
  pixels (the product is computed in \<open>size_t\<close>), then \<open>clear()\<close>.\<close>

definition clear :: "'p PixelBuffer \<Rightarrow> 'p \<Rightarrow> 'p PixelBuffer" where
  "clear b v = b\<lparr>m_data := map (\<lambda>_. v) (m_data b)\<rparr>"

definition PixelBuffer_new :: "size_t \<Rightarrow> size_t \<Rightarrow> ('p::zero) PixelBuffer" where
  "PixelBuffer_new w h = clear \<lparr>m_data = replicate (unat (w * h)) 0, m_width = w, m_height = h\<rparr> 0"

text \<open>The offset \<open>y * m_width + x\<close> of both accessors, computed in \<open>size_t\<close>.\<close>

definition offset :: "'p PixelBuffer \<Rightarrow> size_t \<Rightarrow> size_t \<Rightarrow> nat" where
  "offset b x y = unat (y * m_width b + x)"

text \<open>The checked accessor \<open>at(x, y)\<close> (\<open>at\<close> is taken in HOL, hence the suffix);
  the exception is the left injection.\<close>

definition at_checked :: "'p PixelBuffer \<Rightarrow> size_t \<Rightarrow> size_t \<Rightarrow> error + 'p" where
  "at_checked b x y = (if x \<ge> m_width b \<or> y \<ge> m_height b then Inl out_of_range
               else Inr (m_data b ! offset b x y))"

text \<open>The unchecked accessor \<open>operator()(x, y)\<close>, read and write. Its callers pass
  coordinates that \<open>contains\<close> accepted.\<close>

definition get_pixel :: "'p PixelBuffer \<Rightarrow> size_t \<Rightarrow> size_t \<Rightarrow> 'p" where
  "get_pixel b x y = m_data b ! offset b x y"

definition set_pixel :: "'p PixelBuffer \<Rightarrow> size_t \<Rightarrow> size_t \<Rightarrow> 'p \<Rightarrow> 'p PixelBuffer" where
  "set_pixel b x y v = b\<lparr>m_data := (m_data b)[offset b x y := v]\<rparr>"

definition contains :: "'p PixelBuffer \<Rightarrow> int \<Rightarrow> int \<Rightarrow> bool" where
  "contains b x y \<longleftrightarrow> x \<ge> 0 \<and> x < static_cast_int (m_width b) \<and>
                     y \<ge> 0 \<and> y < static_cast_int (m_height b)"

text \<open>\<open>blit(source, position)\<close>. The parameter \<open>source\<close> is a reference and may be the
  destination itself, in which case each read sees the writes made so far.\<close>

datatype 'p source = Other "'p PixelBuffer" | Self

fun source_view :: "'p source \<Rightarrow> 'p PixelBuffer \<Rightarrow> 'p PixelBuffer" where
  "source_view (Other s) d = s"
| "source_view Self d = d"

definition blit_step :: "'p source \<Rightarrow> int Point2D \<Rightarrow> int \<Rightarrow> 'p PixelBuffer \<Rightarrow> int \<Rightarrow> 'p PixelBuffer" where
  "blit_step src position y d x =
     (let dest_x = p_x position + x;
          dest_y = p_y position + y
      in if contains d dest_x dest_y
         then set_pixel d (static_cast_size_t dest_x) (static_cast_size_t dest_y)
                (get_pixel (source_view src d) (static_cast_size_t x) (static_cast_size_t y))
         else d)"

text \<open>The counters of \<open>for (int i = 0; i < n; ++i)\<close>.\<close>

definition for_range :: "int \<Rightarrow> int list" where
  "for_range n = map int [0 ..< nat n]"

definition blit :: "'p PixelBuffer \<Rightarrow> 'p source \<Rightarrow> int Point2D \<Rightarrow> 'p PixelBuffer" where
  "blit d src position =
     (let src_width = static_cast_int (m_width (source_view src d));
          src_height = static_cast_int (m_height (source_view src d))
      in foldl (\<lambda>d y. foldl (blit_step src position y) d (for_range src_width))
           d (for_range src_height))"

text \<open>\<open>blend_pixels(background, foreground)\<close>, format RGBA with alpha in the low byte.
  A channel is \<open>static_cast<uint8_t>(bg * inv_a + fg * a)\<close>: the two products and the sum
  are \<open>float\<close> operations, each rounded to single precision, and so are the division
  \<open>alpha / 255.0f\<close> and the subtraction \<open>1.0f - a\<close>.\<close>

definition blend_channel :: "('f::floor_ceiling) \<Rightarrow> 'f \<Rightarrow> uint8 \<Rightarrow> uint8 \<Rightarrow> uint8" where
  "blend_channel a inv_a bg fg =
     float_to_uint8 (binary32 (binary32 (uint8_to_float bg * inv_a) + binary32 (uint8_to_float fg * a)))"

definition channel :: "nat \<Rightarrow> uint32 \<Rightarrow> uint8" where
  "channel n p = ucast (drop_bit n p AND 0xFF)"

text \<open>\<open>const uint8_t alpha = foreground & 0xFF\<close>.\<close>

definition alpha_of :: "uint32 \<Rightarrow> uint8" where
  "alpha_of p = ucast (p AND 0xFF)"

definition blend_pixels :: "('f::floor_ceiling) itself \<Rightarrow> uint32 \<Rightarrow> uint32 \<Rightarrow> uint32" where
  "blend_pixels fl background foreground =
     (let alpha = alpha_of foreground in
      if alpha = 0 then background
      else if alpha = 255 then foreground
      else
        let a = (binary32 (uint8_to_float alpha / 255) :: 'f);
            inv_a = binary32 (1 - a);
            bg_r = channel 24 background;
            bg_g = channel 16 background;
            bg_b = channel 8 background;
            fg_r = channel 24 foreground;
            fg_g = channel 16 foreground;
            fg_b = channel 8 foreground;
            result_r = blend_channel a inv_a bg_r fg_r;
            result_g = blend_channel a inv_a bg_g fg_g;
            result_b = blend_channel a inv_a bg_b fg_b
        in ((push_bit 24 (ucast result_r) OR push_bit 16 (ucast result_g))
              OR push_bit 8 (ucast result_b)) OR 255)"

definition blit_with_alpha_step ::
  "('f::floor_ceiling) itself \<Rightarrow> uint32 source \<Rightarrow> int Point2D \<Rightarrow> int \<Rightarrow> uint32 PixelBuffer \<Rightarrow> int
     \<Rightarrow> uint32 PixelBuffer" where
  "blit_with_alpha_step fl src position y d x =
     (let dest_x = p_x position + x;
          dest_y = p_y position + y
      in if contains d dest_x dest_y
         then let src_pixel = get_pixel (source_view src d) (static_cast_size_t x) (static_cast_size_t y);
                  dest_pixel = get_pixel d (static_cast_size_t dest_x) (static_cast_size_t dest_y)
              in set_pixel d (static_cast_size_t dest_x) (static_cast_size_t dest_y)
                   (blend_pixels fl dest_pixel src_pixel)
         else d)"

definition blit_with_alpha ::
  "('f::floor_ceiling) itself \<Rightarrow> uint32 PixelBuffer \<Rightarrow> uint32 source \<Rightarrow> int Point2D \<Rightarrow> uint32 PixelBuffer" where
  "blit_with_alpha fl d src position =
     (let src_width = static_cast_int (m_width (source_view src d));
          src_height = static_cast_int (m_height (source_view src d))
      in foldl (\<lambda>d y. foldl (blit_with_alpha_step fl src position y) d (for_range src_width))
           d (for_range src_height))"

section \<open>random.hpp\<close>

text \<open>The parts of the C++ standard library the generator calls. \<open>'s\<close> is the state of
  the engine \<open>std::mt19937\<close>; a distribution applied to the engine returns the value
  drawn and the engine's next state. \<open>uniform_real\<close> is
  \<open>std::uniform_real_distribution<float>(0.0f, 1.0f)\<close>, \<open>uniform_int lo hi\<close> is
  \<open>std::uniform_int_distribution<int>(lo, hi)\<close>; a distribution object keeps no state
  of its own between two draws.\<close>

record ('s, 'f) stdlib =
  mt19937 :: "uint32 \<Rightarrow> 's"
  uniform_real :: "'s \<Rightarrow> 'f \<times> 's"
  uniform_int :: "int \<Rightarrow> int \<Rightarrow> 's \<Rightarrow> int \<times> 's"
  std_cos :: "'f \<Rightarrow> 'f"
  std_sin :: "'f \<Rightarrow> 'f"
  M_PI :: 'f

text \<open>\<open>std::random_device\<close>: the values it will return, in order.\<close>

type_synonym random_device = "nat \<Rightarrow> uint32"

definition read_random_device :: "random_device \<Rightarrow> uint32 \<times> random_device" where
  "read_random_device dev = (dev 0, \<lambda>n. dev (Suc n))"

text \<open>The class \<open>Random\<close> holds the engine only; its state is the engine's state.\<close>

definition Random :: "('s, 'f) stdlib \<Rightarrow> uint32 \<Rightarrow> 's" where
  "Random lib seed = mt19937 lib seed"

definition next_float :: "('s, 'f) stdlib \<Rightarrow> 's \<Rightarrow> 'f \<times> 's" where
  "next_float lib rng = uniform_real lib rng"

definition next_float_range :: "('s, 'f::floor_ceiling) stdlib \<Rightarrow> 'f \<Rightarrow> 'f \<Rightarrow> 's \<Rightarrow> 'f \<times> 's" where
  "next_float_range lib lo hi rng =
     (let (r, rng') = next_float lib rng in (lo + r * (hi - lo), rng'))"

definition next_int :: "('s, 'f) stdlib \<Rightarrow> int \<Rightarrow> int \<Rightarrow> 's \<Rightarrow> int \<times> 's" where
  "next_int lib lo hi rng = uniform_int lib lo hi rng"

section \<open>tree_parameters.hpp\<close>

datatype TreeType = Oak | Pine | Palm | Birch | Willow | Dead | Custom

text \<open>The last stage is \<open>GrowthStage::Dead\<close> in the source.\<close>

datatype GrowthStage = Seed | Sapling | Young | Mature | Old | Dead_stage

fun growth_stage_value :: "GrowthStage \<Rightarrow> nat" where
  "growth_stage_value Seed = 0"
| "growth_stage_value Sapling = 1"
| "growth_stage_value Young = 2"
| "growth_stage_value Mature = 3"
| "growth_stage_value Old = 4"
| "growth_stage_value Dead_stage = 5"

datatype Season = Spring | Summer | Autumn | Winter

text \<open>Every \<open>BoundedValue\<close> field holds its value; the clamping of the constructor and of
  the assignment operator is applied where the source constructs or assigns.\<close>

record 'f BranchParameters =
  base_thickness :: 'f
  thickness_decay :: 'f
  branch_probability :: 'f
  branch_angle_variation :: 'f
  max_depth :: int
  max_branches :: int
  curvature :: 'f
  asymmetry :: 'f

record 'f LeafParameters =
  density :: 'f
  size_base :: 'f
  size_variation :: 'f
  color_variation :: 'f
  base_colors :: "Color list"
  alpha_variation :: 'f

record 'f TrunkParameters =
  base_color :: Color
  color_variation :: 'f
  texture_noise :: 'f
  bark_detail :: 'f

record 'f TreeParameters =
  tree_type :: TreeType
  growth_stage :: GrowthStage
  season :: Season
  canvas_width :: int
  canvas_height :: int
  overall_scale :: 'f
  branches :: "'f BranchParameters"
  leaves :: "'f LeafParameters"
  trunk :: "'f TrunkParameters"
  wind_direction :: 'f
  wind_strength :: 'f
  age_factor :: 'f
  random_seed :: uint32
  determinism :: 'f

definition default_BranchParameters :: "('f::floor_ceiling) BranchParameters" where
  "default_BranchParameters =
     \<lparr>base_thickness = BoundedFloat10 2,
      thickness_decay = BoundedFloat01 (8 / 10),
      branch_probability = BoundedFloat01 (7 / 10),
      branch_angle_variation = BoundedFloat01 (3 / 10),
      max_depth = clamp 5 1 10,
      max_branches = clamp 32 8 64,
      curvature = BoundedFloat01 (1 / 10),
      asymmetry = BoundedFloat01 (2 / 10)\<rparr>"

definition default_LeafParameters :: "('f::floor_ceiling) LeafParameters" where
  "default_LeafParameters =
     \<lparr>density = BoundedFloat01 (8 / 10),
      size_base = BoundedFloat10 3,
      size_variation = BoundedFloat01 (3 / 10),
      LeafParameters.color_variation = BoundedFloat01 (2 / 10),
      base_colors = [rgb 34 139 34, rgb 50 205 50, rgb 107 142 35, rgb 85 107 47],
      alpha_variation = BoundedFloat01 (1 / 10)\<rparr>"

definition default_TrunkParameters :: "('f::floor_ceiling) TrunkParameters" where
  "default_TrunkParameters =
     \<lparr>base_color = rgb 101 67 33,
      TrunkParameters.color_variation = BoundedFloat01 (15 / 100),
      texture_noise = BoundedFloat01 (1 / 10),
      bark_detail = BoundedFloat01 0\<rparr>"

definition default_TreeParameters :: "('f::floor_ceiling) TreeParameters" where
  "default_TreeParameters =
     \<lparr>tree_type = Oak,
      growth_stage = Mature,
      season = Summer,
      canvas_width = clamp 128 16 512,
      canvas_height = clamp 128 16 512,
      overall_scale = BoundedFloat10 1,
      branches = default_BranchParameters,
      leaves = default_LeafParameters,
      trunk = default_TrunkParameters,
      wind_direction = BoundedAngle 0,
      wind_strength = BoundedFloat01 0,
      age_factor = BoundedFloat01 (5 / 10),
      random_seed = 0,
      determinism = BoundedFloat01 (8 / 10)\<rparr>"

text \<open>\<open>TreeParameters::validate()\<close>: the adjustments for the tree type, the growth stage and
  the season, in the order of the source.\<close>

definition validate_type :: "('f::floor_ceiling) TreeParameters \<Rightarrow> 'f TreeParameters" where
  "validate_type p =
     (case tree_type p of
        Pine \<Rightarrow>
          p\<lparr>branches := (branches p)\<lparr>branch_angle_variation :=
                 BoundedFloat01 (min (branch_angle_variation (branches p)) (2 / 10))\<rparr>,
            leaves := (leaves p)\<lparr>density := BoundedFloat01 (min (density (leaves p)) (6 / 10))\<rparr>\<rparr>
      | Palm \<Rightarrow>
          p\<lparr>branches := (branches p)\<lparr>
                 max_depth := clamp (min (max_depth (branches p)) 3) 1 10,
                 curvature := BoundedFloat01 (max (curvature (branches p)) (3 / 10))\<rparr>\<rparr>
      | Willow \<Rightarrow>
          p\<lparr>branches := (branches p)\<lparr>
                 curvature := BoundedFloat01 (max (curvature (branches p)) (4 / 10))\<rparr>\<rparr>
      | Dead \<Rightarrow>
          p\<lparr>leaves := (leaves p)\<lparr>density := BoundedFloat01 0\<rparr>,
            trunk := (trunk p)\<lparr>TrunkParameters.color_variation :=
                 BoundedFloat01 (max (TrunkParameters.color_variation (trunk p)) (3 / 10))\<rparr>\<rparr>
      | _ \<Rightarrow> p)"

definition validate_growth :: "('f::floor_ceiling) TreeParameters \<Rightarrow> 'f TreeParameters" where
  "validate_growth p =
     (let growth_factor = of_nat (growth_stage_value (growth_stage p)) / of_nat (growth_stage_value Mature)
      in p\<lparr>overall_scale := BoundedFloat10 (overall_scale p * (2 / 10 + 8 / 10 * growth_factor))\<rparr>)"

definition validate_season :: "('f::floor_ceiling) TreeParameters \<Rightarrow> 'f TreeParameters" where
  "validate_season p =
     (if season p = Autumn
      then p\<lparr>leaves := (leaves p)\<lparr>base_colors :=
               [rgb 255 140 0, rgb 255 165 0, rgb 255 69 0, rgb 139 69 19]\<rparr>\<rparr>
      else if season p = Winter
      then p\<lparr>leaves := (leaves p)\<lparr>density := BoundedFloat01 (density (leaves p) * (3 / 10))\<rparr>\<rparr>
      else p)"

definition validate :: "('f::floor_ceiling) TreeParameters \<Rightarrow> 'f TreeParameters" where
  "validate p = validate_season (validate_growth (validate_type p))"

text \<open>The class \<open>TreePresets\<close>.\<close>

definition oak :: "('f::floor_ceiling) TreeParameters" where
  "oak =
     (let params = default_TreeParameters in
      params\<lparr>tree_type := Oak,
        branches := (branches params)\<lparr>
          branch_probability := BoundedFloat01 (8 / 10),
          max_depth := clamp 5 1 10,
          curvature := BoundedFloat01 (15 / 100)\<rparr>,
        leaves := (leaves params)\<lparr>
          density := BoundedFloat01 (9 / 10),
          size_base := BoundedFloat10 4\<rparr>\<rparr>)"

definition pine :: "('f::floor_ceiling) TreeParameters" where
  "pine =
     (let params = default_TreeParameters in
      params\<lparr>tree_type := Pine,
        branches := (branches params)\<lparr>
          branch_probability := BoundedFloat01 (6 / 10),
          branch_angle_variation := BoundedFloat01 (15 / 100),
          max_depth := clamp 6 1 10\<rparr>,
        leaves := (leaves params)\<lparr>
          density := BoundedFloat01 (7 / 10),
          base_colors := [rgb 34 139 34, rgb 0 100 0, rgb 46 125 50, rgb 27 94 32]\<rparr>\<rparr>)"

definition palm :: "('f::floor_ceiling) TreeParameters" where
  "palm =
     (let params = default_TreeParameters in
      params\<lparr>tree_type := Palm,
        branches := (branches params)\<lparr>
          max_depth := clamp 2 1 10,
          curvature := BoundedFloat01 (4 / 10),
          base_thickness := BoundedFloat10 (15 / 10)\<rparr>,
        leaves := (leaves params)\<lparr>
          density := BoundedFloat01 (4 / 10),
          size_base := BoundedFloat10 8\<rparr>\<rparr>)"

definition dead :: "('f::floor_ceiling) TreeParameters" where
  "dead =
     (let params = default_TreeParameters in
      params\<lparr>tree_type := Dead,
        branches := (branches params)\<lparr>branch_probability := BoundedFloat01 (5 / 10)\<rparr>,
        leaves := (leaves params)\<lparr>density := BoundedFloat01 0\<rparr>,
        trunk := (trunk params)\<lparr>
          base_color := rgb 101 67 33,
          TrunkParameters.color_variation := BoundedFloat01 (4 / 10)\<rparr>\<rparr>)"

section \<open>tree_structure.hpp\<close>

text \<open>A \<open>shared_ptr<Branch>\<close> is the index of the branch in \<open>all_branches\<close>: every branch
  the library creates is appended to that list when it is created, and none is removed.\<close>

record 'f Branch =
  parent :: "nat option"
  children :: "nat list"
  start_point :: "'f Point2D"
  end_point :: "'f Point2D"
  thickness :: 'f
  curvature :: 'f
  color :: Color
  depth_level :: int
  generation_id :: uint32
  growth_factor :: 'f

definition Branch_new :: "('f::floor_ceiling) Point2D \<Rightarrow> 'f Point2D \<Rightarrow> 'f \<Rightarrow> int \<Rightarrow> 'f Branch" where
  "Branch_new start end' thick depth =
     \<lparr>parent = None, children = [], start_point = start, end_point = end',
      Branch.thickness = thick, Branch.curvature = 0, Branch.color = rgb 101 67 33,
      depth_level = depth, Branch.generation_id = 0, growth_factor = 1\<rparr>"

definition is_leaf :: "'f Branch \<Rightarrow> bool" where
  "is_leaf b \<longleftrightarrow> children b = []"

definition branch_bounding_box :: "('f::floor_ceiling) Branch \<Rightarrow> 'f Rect2D" where
  "branch_bounding_box b =
     (let half_thickness = Branch.thickness b * (5 / 10) in
      \<lparr>r_min = \<lparr>p_x = min (p_x (start_point b)) (p_x (end_point b)) - half_thickness,
                p_y = min (p_y (start_point b)) (p_y (end_point b)) - half_thickness\<rparr>,
       r_max = \<lparr>p_x = max (p_x (start_point b)) (p_x (end_point b)) + half_thickness,
                p_y = max (p_y (start_point b)) (p_y (end_point b)) + half_thickness\<rparr>\<rparr>)"

datatype Shape = Circle | Ellipse | Spiky | Scattered

record 'f LeafCluster =
  position :: "'f Point2D"
  size :: 'f
  color :: Color
  leaf_positions :: "'f Point2D list"
  shape :: Shape

definition LeafCluster_new :: "'f Point2D \<Rightarrow> 'f \<Rightarrow> Color \<Rightarrow> 'f LeafCluster" where
  "LeafCluster_new pos sz col =
     \<lparr>position = pos, size = sz, LeafCluster.color = col, leaf_positions = [], shape = Circle\<rparr>"

definition cluster_bounding_box :: "('f::floor_ceiling) LeafCluster \<Rightarrow> 'f Rect2D" where
  "cluster_bounding_box c =
     \<lparr>r_min = \<lparr>p_x = p_x (position c) - size c, p_y = p_y (position c) - size c\<rparr>,
      r_max = \<lparr>p_x = p_x (position c) + size c, p_y = p_y (position c) + size c\<rparr>\<rparr>"

record 'f TreeStructure =
  root :: "nat option"
  all_branches :: "'f Branch list"
  leaf_clusters :: "'f LeafCluster list"
  parameters :: "'f TreeParameters"
  bounding_box :: "'f Rect2D"
  generation_id :: uint32

definition TreeStructure_new :: "('f::floor_ceiling) TreeParameters \<Rightarrow> 'f TreeStructure" where
  "TreeStructure_new params =
     \<lparr>root = None, all_branches = [], leaf_clusters = [], parameters = params,
      bounding_box = \<lparr>r_min = \<lparr>p_x = 0, p_y = 0\<rparr>, r_max = \<lparr>p_x = 0, p_y = 0\<rparr>\<rparr>,
      TreeStructure.generation_id = 0\<rparr>"

definition expand :: "('f::floor_ceiling) Rect2D \<Rightarrow> 'f Rect2D \<Rightarrow> 'f Rect2D" where
  "expand box b =
     \<lparr>r_min = \<lparr>p_x = min (p_x (r_min box)) (p_x (r_min b)), p_y = min (p_y (r_min box)) (p_y (r_min b))\<rparr>,
      r_max = \<lparr>p_x = max (p_x (r_max box)) (p_x (r_max b)), p_y = max (p_y (r_max box)) (p_y (r_max b))\<rparr>\<rparr>"

definition calculate_bounding_box :: "('f::floor_ceiling) TreeStructure \<Rightarrow> 'f TreeStructure" where
  "calculate_bounding_box t =
     (case all_branches t of
        [] \<Rightarrow> t\<lparr>bounding_box := \<lparr>r_min = \<lparr>p_x = 0, p_y = 0\<rparr>, r_max = \<lparr>p_x = 0, p_y = 0\<rparr>\<rparr>\<rparr>
      | first # _ \<Rightarrow>
          let box0 = branch_bounding_box first;
              box1 = foldl (\<lambda>box branch. expand box (branch_bounding_box branch)) box0 (all_branches t);
              box2 = foldl (\<lambda>box cluster. expand box (cluster_bounding_box cluster)) box1 (leaf_clusters t)
          in t\<lparr>bounding_box := box2\<rparr>)"

text \<open>\<open>Branch::get_leaf_branches(leaves)\<close> recurses into the children. The recursion of
  the model counts down a bound on its depth and returns \<open>None\<close> when the bound is used
  up; \<open>TreeStructure::get_leaf_branches\<close> starts it with the number of branches, which
  suffices when the links form a tree.\<close>

fun get_leaf_branches_rec :: "nat \<Rightarrow> 'f Branch list \<Rightarrow> nat \<Rightarrow> nat list \<Rightarrow> nat list option" where
  "get_leaf_branches_rec 0 bs this lvs = None"
| "get_leaf_branches_rec (Suc n) bs this lvs =
     (if is_leaf (bs ! this) then Some (lvs @ [this])
      else foldl (\<lambda>acc child. case acc of None \<Rightarrow> None
                               | Some ls \<Rightarrow> get_leaf_branches_rec n bs child ls)
             (Some lvs) (children (bs ! this)))"

definition get_leaf_branches :: "'f TreeStructure \<Rightarrow> nat list option" where
  "get_leaf_branches t =
     (case root t of
        None \<Rightarrow> Some []
      | Some r \<Rightarrow> get_leaf_branches_rec (length (all_branches t)) (all_branches t) r [])"

text \<open>The statistics \<open>branch_count()\<close>, \<open>leaf_cluster_count()\<close> and \<open>max_depth()\<close> of
  \<open>TreeStructure\<close>.\<close>

definition tree_branch_count :: "'f TreeStructure \<Rightarrow> nat" where
  "tree_branch_count t = length (all_branches t)"

definition tree_leaf_cluster_count :: "'f TreeStructure \<Rightarrow> nat" where
  "tree_leaf_cluster_count t = length (leaf_clusters t)"

definition tree_max_depth :: "'f TreeStructure \<Rightarrow> int" where
  "tree_max_depth t = foldl (\<lambda>max_d branch. max max_d (depth_level branch)) 0 (all_branches t)"

section \<open>lsystem.hpp\<close>

datatype 'f LSystemRule =
  GrowthRule 'f 'f 'f
| SplitRule int 'f 'f
| TerminateRule 'f

record 'f LSystemState =
  position :: "'f Point2D"
  direction :: "'f Point2D"
  thickness :: 'f
  depth :: int
  color :: Color

definition rules_of :: "('f::floor_ceiling) LSystemRule \<Rightarrow> 'f LSystemRule \<Rightarrow> 'f LSystemRule
    \<Rightarrow> (char \<rightharpoonup> 'f LSystemRule)" where
  "rules_of grow split terminate =
     [CHR ''F'' \<mapsto> grow, CHR ''['' \<mapsto> split, CHR '']'' \<mapsto> terminate]"

definition setup_rules :: "TreeType \<Rightarrow> (char \<rightharpoonup> ('f::floor_ceiling) LSystemRule)" where
  "setup_rules type =
     (case type of
        Oak \<Rightarrow> rules_of (GrowthRule 1 (9 / 10) 0) (SplitRule 2 35 (7 / 10)) (TerminateRule (1 / 10))
      | Pine \<Rightarrow> rules_of (GrowthRule (12 / 10) (8 / 10) 0) (SplitRule 3 25 (6 / 10)) (TerminateRule (2 / 10))
      | Palm \<Rightarrow> rules_of (GrowthRule (15 / 10) (9 / 10) 10) (SplitRule 5 60 (8 / 10)) (TerminateRule (8 / 10))
      | _ \<Rightarrow> rules_of (GrowthRule 1 (9 / 10) 0) (SplitRule 2 30 (7 / 10)) (TerminateRule (1 / 10)))"

text \<open>One pass of \<open>generate_string\<close> over the current string: \<open>rewrite\<close> takes the
  characters still to read, \<open>next_result\<close> and the engine.\<close>

fun rewrite :: "('s, 'f::floor_ceiling) stdlib \<Rightarrow> 'f TreeParameters \<Rightarrow> string \<Rightarrow> string \<Rightarrow> 's
    \<Rightarrow> string \<times> 's" where
  "rewrite lib params [] next_result rng = (next_result, rng)"
| "rewrite lib params (c # cs) next_result rng =
     (if c = CHR ''F''
      then let (r, rng') = next_float lib rng
           in if r < branch_probability (branches params)
              then rewrite lib params cs (next_result @ ''F'' @ ''[+F][-F]'') rng'
              else rewrite lib params cs (next_result @ ''F'') rng'
      else rewrite lib params cs (next_result @ [c]) rng)"

fun iterate :: "('s, 'f::floor_ceiling) stdlib \<Rightarrow> 'f TreeParameters \<Rightarrow> nat \<Rightarrow> string \<Rightarrow> 's
    \<Rightarrow> string \<times> 's" where
  "iterate lib params 0 result rng = (result, rng)"
| "iterate lib params (Suc n) result rng =
     (let (next_result, rng') = rewrite lib params result [] rng
      in iterate lib params n next_result rng')"

definition generate_string :: "('s, 'f::floor_ceiling) stdlib \<Rightarrow> 'f TreeParameters \<Rightarrow> 's \<Rightarrow> string \<times> 's" where
  "generate_string lib params rng = iterate lib params (nat (max_depth (branches params))) ''F'' rng"

definition rotate_vector :: "('s, 'f::floor_ceiling) stdlib \<Rightarrow> 'f Point2D \<Rightarrow> 'f \<Rightarrow> 'f Point2D" where
  "rotate_vector lib vec angle_degrees =
     (let angle_rad = angle_degrees * M_PI lib / 180;
          cos_a = std_cos lib angle_rad;
          sin_a = std_sin lib angle_rad
      in \<lparr>p_x = p_x vec * cos_a - p_y vec * sin_a,
          p_y = p_x vec * sin_a + p_y vec * cos_a\<rparr>)"

text \<open>The local variables of \<open>string_to_tree\<close> that its loop changes.\<close>

record ('s, 'f) interpreter =
  tree :: "'f TreeStructure"
  state_stack :: "'f LSystemState list"
  current_state :: "'f LSystemState"
  current_branch :: "nat option"
  rng :: 's

definition forward :: "('f::floor_ceiling) TreeParameters \<Rightarrow> ('s, 'f) interpreter \<Rightarrow> ('s, 'f) interpreter" where
  "forward params it =
     (let st = current_state it;
          t = tree it;
          branch_length = 15 * overall_scale params;
          end_pos = point_add (LSystemState.position st) (point_scale (direction st) branch_length);
          branch = (Branch_new (LSystemState.position st) end_pos (LSystemState.thickness st) (depth st))
                     \<lparr>Branch.color := LSystemState.color st\<rparr>;
          this = length (all_branches t);
          (t', branch') =
            (if root t = None then (t\<lparr>root := Some this\<rparr>, branch)
             else case current_branch it of
                    Some cur \<Rightarrow>
                      (t\<lparr>all_branches := (all_branches t)
                           [cur := (all_branches t ! cur)\<lparr>children := children (all_branches t ! cur) @ [this]\<rparr>]\<rparr>,
                       branch\<lparr>parent := Some cur\<rparr>)
                  | None \<Rightarrow> (t, branch))
      in it\<lparr>tree := t'\<lparr>all_branches := all_branches t' @ [branch']\<rparr>,
            current_branch := Some this,
            current_state := st\<lparr>LSystemState.position := end_pos\<rparr>\<rparr>)"

definition turn :: "('s, 'f::floor_ceiling) stdlib \<Rightarrow> 'f TreeParameters \<Rightarrow> bool \<Rightarrow> ('s, 'f) interpreter
    \<Rightarrow> ('s, 'f) interpreter" where
  "turn lib params left it =
     (let (r, rng') = next_float_range lib (- 45) 45 (rng it);
          angle = r * branch_angle_variation (branches params);
          st = current_state it
      in it\<lparr>current_state := st\<lparr>direction := rotate_vector lib (direction st) (if left then - angle else angle)\<rparr>,
            rng := rng'\<rparr>)"

definition symbol :: "('s, 'f::floor_ceiling) stdlib \<Rightarrow> 'f TreeParameters \<Rightarrow> char \<Rightarrow> ('s, 'f) interpreter
    \<Rightarrow> ('s, 'f) interpreter" where
  "symbol lib params c it =
     (if c = CHR ''F'' then forward params it
      else if c = CHR ''['' then it\<lparr>state_stack := state_stack it @ [current_state it]\<rparr>
      else if c = CHR '']'' then
        (if state_stack it \<noteq> []
         then it\<lparr>current_state := last (state_stack it), state_stack := butlast (state_stack it)\<rparr>
         else it)
      else if c = CHR ''+'' then turn lib params False it
      else if c = CHR ''-'' then turn lib params True it
      else it)"

definition decay :: "('f::floor_ceiling) TreeParameters \<Rightarrow> ('s, 'f) interpreter \<Rightarrow> ('s, 'f) interpreter" where
  "decay params it =
     (let st = current_state it
      in it\<lparr>current_state := st\<lparr>
            LSystemState.thickness := LSystemState.thickness st * thickness_decay (branches params),
            depth := depth st + 1\<rparr>\<rparr>)"

definition step :: "('s, 'f::floor_ceiling) stdlib \<Rightarrow> 'f TreeParameters \<Rightarrow> ('s, 'f) interpreter \<Rightarrow> char
    \<Rightarrow> ('s, 'f) interpreter" where
  "step lib params it c = decay params (symbol lib params c it)"

definition start_interpreter :: "('f::floor_ceiling) TreeParameters \<Rightarrow> 's \<Rightarrow> ('s, 'f) interpreter" where
  "start_interpreter params rng0 =
     (let start_pos = \<lparr>p_x = of_int (canvas_width params) * (5 / 10),
                       p_y = of_int (canvas_height params) * (9 / 10)\<rparr>;
          start_dir = \<lparr>p_x = 0, p_y = - 1\<rparr>
      in \<lparr>tree = TreeStructure_new params,
          state_stack = [],
          current_state = \<lparr>LSystemState.position = start_pos, direction = start_dir,
                            LSystemState.thickness = base_thickness (branches params),
                            depth = 0, LSystemState.color = base_color (trunk params)\<rparr>,
          current_branch = None,
          rng = rng0\<rparr>)"

definition string_to_tree :: "('s, 'f::floor_ceiling) stdlib \<Rightarrow> string \<Rightarrow> 'f TreeParameters \<Rightarrow> 's
    \<Rightarrow> 'f TreeStructure \<times> 's" where
  "string_to_tree lib lstring params rng0 =
     (let it = foldl (step lib params) (start_interpreter params rng0) lstring
      in (tree it, rng it))"

section \<open>tree_renderer.hpp\<close>

text \<open>The body of \<open>while (true)\<close> in \<open>draw_line\<close>; the loop may not return, hence the
  option.\<close>

partial_function (option) draw_line_loop ::
  "int \<Rightarrow> int \<Rightarrow> int \<Rightarrow> int \<Rightarrow> int \<Rightarrow> int \<Rightarrow> uint32 \<Rightarrow> uint32 PixelBuffer \<Rightarrow> int \<Rightarrow> int \<Rightarrow> int
     \<Rightarrow> uint32 PixelBuffer option" where
  "draw_line_loop x1 y1 dx dy sx sy col buffer x y err =
     (let buffer' = (if contains buffer x y
                     then set_pixel buffer (static_cast_size_t x) (static_cast_size_t y) col
                     else buffer)
      in if x = x1 \<and> y = y1 then Some buffer'
         else
           let e2 = 2 * err;
               err1 = (if e2 > - dy then err - dy else err);
               x' = (if e2 > - dy then x + sx else x);
               err2 = (if e2 < dx then err1 + dx else err1);
               y' = (if e2 < dx then y + sy else y)
           in draw_line_loop x1 y1 dx dy sx sy col buffer' x' y' err2)"

declare draw_line_loop.simps [code]

definition draw_line :: "uint32 PixelBuffer \<Rightarrow> int \<Rightarrow> int \<Rightarrow> int \<Rightarrow> int \<Rightarrow> uint32 \<Rightarrow> uint32 PixelBuffer option" where
  "draw_line buffer x0 y0 x1 y1 col =
     (let dx = \<bar>x1 - x0\<bar>;
          dy = \<bar>y1 - y0\<bar>;
          sx = (if x0 < x1 then 1 else - 1);
          sy = (if y0 < y1 then 1 else - 1);
          err = dx - dy
      in draw_line_loop x1 y1 dx dy sx sy col buffer x0 y0 err)"

definition draw_thick_line ::
  "uint32 PixelBuffer \<Rightarrow> ('f::floor_ceiling) Point2D \<Rightarrow> 'f Point2D \<Rightarrow> 'f \<Rightarrow> uint32 \<Rightarrow> uint32 PixelBuffer option" where
  "draw_thick_line buffer start end' thick col =
     (let x0 = trunc_int (std_round (p_x start));
          y0 = trunc_int (std_round (p_y start));
          x1 = trunc_int (std_round (p_x end'));
          y1 = trunc_int (std_round (p_y end'));
          half_thickness = trunc_int (std_ceil (thick * (5 / 10)))
      in foldl (\<lambda>acc off.
                  Option.bind acc (\<lambda>b.
                  Option.bind (draw_line b (x0 + off) y0 (x1 + off) y1 col) (\<lambda>b'.
                  draw_line b' x0 (y0 + off) x1 (y1 + off) col)))
           (Some buffer) [- half_thickness .. half_thickness])"

definition render_branches :: "uint32 PixelBuffer \<Rightarrow> ('f::floor_ceiling) TreeStructure \<Rightarrow> uint32 PixelBuffer option" where
  "render_branches buffer t =
     foldl (\<lambda>acc branch.
              Option.bind acc (\<lambda>b.
              draw_thick_line b (start_point branch) (end_point branch) (Branch.thickness branch)
                (to_rgba (Branch.color branch))))
       (Some buffer) (all_branches t)"

definition draw_leaf_cluster :: "uint32 PixelBuffer \<Rightarrow> ('f::floor_ceiling) LeafCluster \<Rightarrow> uint32 PixelBuffer" where
  "draw_leaf_cluster buffer cluster =
     (let center_x = trunc_int (std_round (p_x (LeafCluster.position cluster)));
          center_y = trunc_int (std_round (p_y (LeafCluster.position cluster)));
          radius = trunc_int (std_ceil (LeafCluster.size cluster));
          col = to_rgba (LeafCluster.color cluster)
      in foldl (\<lambda>b y.
           foldl (\<lambda>b x.
                    if x * x + y * y \<le> radius * radius
                    then let pixel_x = center_x + x;
                             pixel_y = center_y + y
                         in if contains b pixel_x pixel_y
                            then set_pixel b (static_cast_size_t pixel_x) (static_cast_size_t pixel_y) col
                            else b
                    else b)
             b [- radius .. radius])
           buffer [- radius .. radius])"

definition render_leaves :: "uint32 PixelBuffer \<Rightarrow> ('f::floor_ceiling) TreeStructure \<Rightarrow> uint32 PixelBuffer" where
  "render_leaves buffer t = foldl draw_leaf_cluster buffer (leaf_clusters t)"

definition render :: "('f::floor_ceiling) TreeStructure \<Rightarrow> uint32 PixelBuffer option" where
  "render t =
     (let params = parameters t;
          buffer = PixelBuffer_new (static_cast_size_t (canvas_width params))
                     (static_cast_size_t (canvas_height params));
          buffer0 = clear buffer 0
      in Option.bind (render_branches buffer0 t) (\<lambda>b. Some (render_leaves b t)))"

section \<open>tree_generator.hpp\<close>

text \<open>\<open>TreeMetadata\<close> without \<open>generation_time_ms\<close>: the elapsed wall-clock time is not
  a function of the inputs and is left out of the model.\<close>

record 'f TreeMetadata =
  generation_id :: uint32
  branch_count :: nat
  leaf_count :: nat
  max_depth :: int
  bounding_box :: "'f Rect2D"
  random_seed :: uint32

text \<open>The generator \<open>TreeGenerator<uint32_t, 64>\<close>: its engine and the rule table of its
  \<open>LSystemGenerator\<close>; the renderer has no state.\<close>

record ('s, 'f) TreeGenerator =
  m_rng :: 's
  m_lsystem :: "char \<rightharpoonup> 'f LSystemRule"

definition TreeGenerator_new :: "('s, 'f) stdlib \<Rightarrow> random_device \<Rightarrow> uint32 \<Rightarrow> ('s, 'f) TreeGenerator \<times> random_device" where
  "TreeGenerator_new lib dev seed =
     (let (s, dev') = (if seed = 0 then read_random_device dev else (seed, dev))
      in (\<lparr>m_rng = Random lib s, m_lsystem = Map.empty\<rparr>, dev'))"

definition cluster_shape :: "TreeType \<Rightarrow> Shape" where
  "cluster_shape ty = (case ty of Pine \<Rightarrow> Spiky | Palm \<Rightarrow> Ellipse | Willow \<Rightarrow> Scattered | _ \<Rightarrow> Circle)"

definition vary_channel :: "uint8 \<Rightarrow> ('f::floor_ceiling) \<Rightarrow> uint8" where
  "vary_channel c jitter = float_to_uint8 (clamp (uint8_to_float c * (1 + jitter)) 0 255)"

text \<open>The body of the loop of \<open>generate_leaf_clusters\<close> for one leaf branch.\<close>

definition place_cluster :: "('s, 'f::floor_ceiling) stdlib \<Rightarrow> 'f TreeStructure \<times> 's \<Rightarrow> nat \<Rightarrow> 'f TreeStructure \<times> 's" where
  "place_cluster lib acc branch =
     (let (t, rng0) = acc;
          (r, rng1) = next_float lib rng0
      in if r < density (leaves (parameters t))
         then
           let base_size = size_base (leaves (parameters t));
               size_var = size_variation (leaves (parameters t));
               (js, rng2) = next_float_range lib (- size_var) size_var rng1;
               cluster_size = base_size * (1 + js);
               (i, rng3) = next_int lib 0 3 rng2;
               base = base_colors (leaves (parameters t)) ! nat i;
               color_var = LeafParameters.color_variation (leaves (parameters t));
               (jr, rng4) = next_float_range lib (- color_var) color_var rng3;
               (jg, rng5) = next_float_range lib (- color_var) color_var rng4;
               (jb, rng6) = next_float_range lib (- color_var) color_var rng5;
               leaf_color = \<lparr>c_r = vary_channel (c_r base) jr, c_g = vary_channel (c_g base) jg,
                             c_b = vary_channel (c_b base) jb, c_a = c_a base\<rparr>;
               cluster = (LeafCluster_new (end_point (all_branches t ! branch)) cluster_size leaf_color)
                           \<lparr>shape := cluster_shape (tree_type (parameters t))\<rparr>
           in (t\<lparr>leaf_clusters := leaf_clusters t @ [cluster]\<rparr>, rng6)
         else (t, rng1))"

definition generate_leaf_clusters :: "('s, 'f::floor_ceiling) stdlib \<Rightarrow> 'f TreeStructure \<Rightarrow> 's
    \<Rightarrow> ('f TreeStructure \<times> 's) option" where
  "generate_leaf_clusters lib t rng0 =
     (if density (leaves (parameters t)) \<le> 0 then Some (t, rng0)
      else case get_leaf_branches t of
             None \<Rightarrow> None
           | Some leaf_branches \<Rightarrow> Some (foldl (place_cluster lib) (t, rng0) leaf_branches))"

definition metadata_of :: "'f TreeStructure \<Rightarrow> uint32 \<Rightarrow> 'f TreeMetadata" where
  "metadata_of t actual_seed =
     \<lparr>TreeMetadata.generation_id = TreeStructure.generation_id t,
      branch_count = tree_branch_count t,
      leaf_count = tree_leaf_cluster_count t,
      TreeMetadata.max_depth = tree_max_depth t,
      TreeMetadata.bounding_box = TreeStructure.bounding_box t,
      TreeMetadata.random_seed = actual_seed\<rparr>"

text \<open>\<open>generate(params)\<close> takes the generator and the random device and returns them
  with the result.\<close>

definition generate :: "('s, 'f::floor_ceiling) stdlib \<Rightarrow> ('s, 'f) TreeGenerator \<Rightarrow> random_device
    \<Rightarrow> 'f TreeParameters
    \<Rightarrow> ((uint32 PixelBuffer \<times> 'f TreeMetadata) \<times> ('s, 'f) TreeGenerator \<times> random_device) option" where
  "generate lib gen dev params =
     (let (actual_seed, dev') = (if TreeParameters.random_seed params = 0 then read_random_device dev
                                 else (TreeParameters.random_seed params, dev));
          rng0 = Random lib actual_seed;
          normalized_params = validate params;
          rules = setup_rules (tree_type normalized_params);
          (lstring, rng1) = generate_string lib normalized_params rng0;
          (tree_structure, rng2) = string_to_tree lib lstring normalized_params rng1
      in case generate_leaf_clusters lib tree_structure rng2 of
           None \<Rightarrow> None
         | Some (with_leaves, rng3) \<Rightarrow>
             let boxed = calculate_bounding_box with_leaves
             in case render boxed of
                  None \<Rightarrow> None
                | Some pixel_buffer \<Rightarrow>
                    Some ((pixel_buffer, metadata_of boxed actual_seed),
                          gen\<lparr>m_rng := rng3, m_lsystem := rules\<rparr>, dev'))"

definition generate_structure :: "('s, 'f::floor_ceiling) stdlib \<Rightarrow> ('s, 'f) TreeGenerator \<Rightarrow> random_device
    \<Rightarrow> 'f TreeParameters \<Rightarrow> ('f TreeStructure \<times> ('s, 'f) TreeGenerator \<times> random_device) option" where
  "generate_structure lib gen dev params =
     (let (actual_seed, dev') = (if TreeParameters.random_seed params = 0 then read_random_device dev
                                 else (TreeParameters.random_seed params, dev));
          rng0 = Random lib actual_seed;
          normalized_params = validate params;
          rules = setup_rules (tree_type normalized_params);
          (lstring, rng1) = generate_string lib normalized_params rng0;
          (tree_structure, rng2) = string_to_tree lib lstring normalized_params rng1
      in case generate_leaf_clusters lib tree_structure rng2 of
           None \<Rightarrow> None
         | Some (with_leaves, rng3) \<Rightarrow>
             Some (calculate_bounding_box with_leaves, gen\<lparr>m_rng := rng3, m_lsystem := rules\<rparr>, dev'))"

text \<open>\<open>generate_batch(params_list)\<close>: the loop over the list, with \<open>results\<close> as its
  accumulator.\<close>

fun generate_batch_loop :: "('s, 'f::floor_ceiling) stdlib \<Rightarrow> ('s, 'f) TreeGenerator \<Rightarrow> random_device
    \<Rightarrow> 'f TreeParameters list \<Rightarrow> (uint32 PixelBuffer \<times> 'f TreeMetadata) list
    \<Rightarrow> ((uint32 PixelBuffer \<times> 'f TreeMetadata) list \<times> ('s, 'f) TreeGenerator \<times> random_device) option" where
  "generate_batch_loop lib gen dev [] results = Some (results, gen, dev)"
| "generate_batch_loop lib gen dev (params # rest) results =
     (case generate lib gen dev params of
        None \<Rightarrow> None
      | Some (r, gen', dev') \<Rightarrow> generate_batch_loop lib gen' dev' rest (results @ [r]))"

definition generate_batch :: "('s, 'f::floor_ceiling) stdlib \<Rightarrow> ('s, 'f) TreeGenerator \<Rightarrow> random_device
    \<Rightarrow> 'f TreeParameters list
    \<Rightarrow> ((uint32 PixelBuffer \<times> 'f TreeMetadata) list \<times> ('s, 'f) TreeGenerator \<times> random_device) option" where
  "generate_batch lib gen dev params_list = generate_batch_loop lib gen dev params_list []"

section \<open>Predicates used in the proofs\<close>

text \<open>The links that \<open>string_to_tree\<close> builds: branch \<open>i\<close> has the single child \<open>i + 1\<close>,
  if that exists, and the parent \<open>i - 1\<close>, if that exists.\<close>

definition linked :: "'f Branch list \<Rightarrow> bool" where
  "linked bs \<longleftrightarrow>
     (\<forall>i < length bs. children (bs ! i) = (if Suc i < length bs then [Suc i] else [])
                        \<and> parent (bs ! i) = (if i = 0 then None else Some (i - 1)))"

definition chained :: "('s, 'f) interpreter \<Rightarrow> bool" where
  "chained it \<longleftrightarrow>
     linked (all_branches (tree it)) \<and>
     (if all_branches (tree it) = [] then root (tree it) = None
      else root (tree it) = Some 0 \<and>
           current_branch it = Some (length (all_branches (tree it)) - 1))"

text \<open>The seed that \<open>generate\<close> resolves, and the tree and the engine it has after
  \<open>string_to_tree\<close>.\<close>

definition resolve_seed :: "random_device \<Rightarrow> 'f TreeParameters \<Rightarrow> uint32 \<times> random_device" where
  "resolve_seed dev params =
     (if TreeParameters.random_seed params = 0 then read_random_device dev
      else (TreeParameters.random_seed params, dev))"

definition skeleton :: "('s, 'f::floor_ceiling) stdlib \<Rightarrow> 'f TreeParameters \<Rightarrow> uint32 \<Rightarrow> 'f TreeStructure \<times> 's" where
  "skeleton lib params seed =
     (let normalized_params = validate params;
          (lstring, rng1) = generate_string lib normalized_params (Random lib seed)
      in string_to_tree lib lstring normalized_params rng1)"

text \<open>The structure that \<open>generate\<close> renders: the skeleton with its leaf clusters and its
  bounding box.\<close>

definition structure_of :: "('s, 'f::floor_ceiling) stdlib \<Rightarrow> 'f TreeParameters \<Rightarrow> uint32 \<Rightarrow> 'f TreeStructure option" where
  "structure_of lib params seed =
     map_option (\<lambda>r. calculate_bounding_box (fst r))
       (generate_leaf_clusters lib (fst (skeleton lib params seed)) (snd (skeleton lib params seed)))"

text \<open>The random device after \<open>generate\<close> has run on each element of a list.\<close>

fun device_after :: "random_device \<Rightarrow> 'f TreeParameters list \<Rightarrow> random_device" where
  "device_after dev [] = dev"
| "device_after dev (params # rest) = device_after (snd (resolve_seed dev params)) rest"

section \<open>Standard libraries for the concrete runs\<close>

text \<open>An engine that returns the same draw for ever, and an engine that reads its draws
  from a script and returns \<open>19 / 20\<close> when the script is used up. Both have a cosine
  that is 1 and a sine that is 0, so that a turn leaves the direction as it is.\<close>

definition constant_draws :: "rat \<Rightarrow> (unit, rat) stdlib" where
  "constant_draws r =
     \<lparr>mt19937 = (\<lambda>seed. ()),
      uniform_real = (\<lambda>s. (r, s)),
      uniform_int = (\<lambda>lo hi s. (lo, s)),
      std_cos = (\<lambda>a. 1),
      std_sin = (\<lambda>a. 0),
      M_PI = 355 / 113\<rparr>"

definition scripted_draws :: "rat list \<Rightarrow> (rat list, rat) stdlib" where
  "scripted_draws script =
     \<lparr>mt19937 = (\<lambda>seed. script),
      uniform_real = (\<lambda>s. case s of [] \<Rightarrow> (19 / 20, []) | r # rs \<Rightarrow> (r, rs)),
      uniform_int = (\<lambda>lo hi s. (lo, s)),
      std_cos = (\<lambda>a. 1),
      std_sin = (\<lambda>a. 0),
      M_PI = 355 / 113\<rparr>"

text \<open>An engine whose stream depends on its seed, as the stream of \<open>std::mt19937\<close> does:
  seeded with 0 its first draw is 0, seeded with another value all its draws are
  \<open>19 / 20\<close>.\<close>

definition seeded_draws :: "(rat list, rat) stdlib" where
  "seeded_draws = (scripted_draws [])\<lparr>mt19937 := (\<lambda>seed. if seed = 0 then [0] else [])\<rparr>"

definition fresh_generator :: "('s, 'f) stdlib \<Rightarrow> ('s, 'f) TreeGenerator" where
  "fresh_generator lib = fst (TreeGenerator_new lib (\<lambda>n. 0) 12345)"

definition no_entropy :: random_device where
  "no_entropy = (\<lambda>n. 0)"

section \<open>Properties\<close>

subsection \<open>Conversions between \<open>int\<close> and \<open>size_t\<close>\<close>

lemma static_cast_int_signed: "static_cast_int w = signed_take_bit 31 (uint w)"
  unfolding static_cast_int_def
  by (simp add: sint_uint unsigned_ucast_eq signed_take_bit_take_bit)

lemma static_cast_int_small: "uint w < 2 ^ 31 \<Longrightarrow> static_cast_int w = uint w"
proof -
  assume "uint w < 2 ^ 31"
  moreover have "- (2 ^ 31) \<le> uint w" by (rule order_trans[of _ 0]) simp_all
  ultimately show ?thesis
    by (simp only: static_cast_int_signed signed_take_bit_int_eq_self)
qed

lemma static_cast_int_le: "0 < static_cast_int w \<Longrightarrow> static_cast_int w \<le> uint w"
proof -
  assume pos: "0 < static_cast_int w"
  have eq: "static_cast_int w = take_bit 32 (uint w) - 2 ^ 32 * of_bool (bit (uint w) 31)"
    by (simp add: static_cast_int_signed signed_take_bit_eq_take_bit_minus)
  have lt: "take_bit 32 (uint w) < 2 ^ 32" by (rule take_bit_int_less_exp)
  from pos eq lt have "\<not> bit (uint w) 31" by (cases "bit (uint w) 31") simp_all
  with eq have "static_cast_int w = take_bit 32 (uint w)" by simp
  then show ?thesis by (simp add: take_bit_int_less_eq_self_iff)
qed

lemma negative_int_as_size_t:
  assumes "INT_MIN \<le> x" "x < 0"
  shows "uint (word_of_int x :: size_t) = x + 2 ^ 64"
proof -
  have "(x + 2 ^ 64) mod 2 ^ 64 = x + 2 ^ 64"
    using assms by (intro mod_pos_pos_trivial) (simp_all add: INT_MIN_def)
  then show ?thesis by (simp add: uint_word_of_int)
qed

lemma static_cast_size_t_less_iff:
  assumes "uint w \<le> INT_MAX" "INT_MIN \<le> x" "x \<le> INT_MAX"
  shows "static_cast_size_t x < w \<longleftrightarrow> 0 \<le> x \<and> x < uint w"
proof (cases "0 \<le> x")
  case True
  with assms have "uint (word_of_int x :: size_t) = x"
    by (simp add: uint_word_of_int INT_MAX_def)
  then show ?thesis using True by (simp add: static_cast_size_t_def word_less_def)
next
  case False
  with assms have "uint (word_of_int x :: size_t) = x + 2 ^ 64"
    by (simp add: negative_int_as_size_t)
  with assms False show ?thesis
    by (simp add: static_cast_size_t_def word_less_def INT_MAX_def INT_MIN_def)
qed

subsection \<open>Bounds of a pixel buffer\<close>

lemma contains_small:
  "uint (m_width b) \<le> INT_MAX \<Longrightarrow> uint (m_height b) \<le> INT_MAX \<Longrightarrow>
   contains b x y \<longleftrightarrow> 0 \<le> x \<and> x < uint (m_width b) \<and> 0 \<le> y \<and> y < uint (m_height b)"
  by (simp add: contains_def static_cast_int_small INT_MAX_def)

lemma at_checked_error:
  "at_checked b u v = Inl out_of_range \<longleftrightarrow> \<not> (u < m_width b \<and> v < m_height b)"
  by (auto simp: at_checked_def)

text \<open>
  \<open>contains\<close> compares its \<open>int\<close> arguments with \<open>static_cast<int>(width_)\<close> and
  \<open>static_cast<int>(height_)\<close>. For a buffer whose width and height fit an \<open>int\<close> (at
  most \<open>INT_MAX\<close>), \<open>contains(x, y)\<close> is true if and only if \<open>0 \<le> x < W\<close> and
  \<open>0 \<le> y < H\<close>. The checked accessor \<open>at(u, v)\<close>, whose arguments are \<open>size_t\<close>, signals
  \<open>out_of_range\<close> exactly when \<open>u < W\<close> and \<open>v < H\<close> fails, for every buffer; called with
  the \<open>int\<close> coordinates \<open>x\<close>, \<open>y\<close> on a buffer that fits, it signals exactly when
  \<open>contains(x, y)\<close> is false.
\<close>

theorem contains_and_at_bounds:
  assumes "uint (m_width b) \<le> INT_MAX" and "uint (m_height b) \<le> INT_MAX"
    and "INT_MIN \<le> x" and "x \<le> INT_MAX" and "INT_MIN \<le> y" and "y \<le> INT_MAX"
  shows "(contains b x y \<longleftrightarrow> 0 \<le> x \<and> x < uint (m_width b) \<and> 0 \<le> y \<and> y < uint (m_height b))
       \<and> (at_checked b u v = Inl out_of_range \<longleftrightarrow> \<not> (u < m_width b \<and> v < m_height b))
       \<and> (at_checked b (static_cast_size_t x) (static_cast_size_t y) = Inl out_of_range
            \<longleftrightarrow> \<not> contains b x y)"
proof -
  have c: "contains b x y \<longleftrightarrow> 0 \<le> x \<and> x < uint (m_width b) \<and> 0 \<le> y \<and> y < uint (m_height b)"
    using assms(1,2) by (rule contains_small)
  have "static_cast_size_t x < m_width b \<longleftrightarrow> 0 \<le> x \<and> x < uint (m_width b)"
    using assms(1,3,4) by (rule static_cast_size_t_less_iff)
  moreover have "static_cast_size_t y < m_height b \<longleftrightarrow> 0 \<le> y \<and> y < uint (m_height b)"
    using assms(2,5,6) by (rule static_cast_size_t_less_iff)
  ultimately have "at_checked b (static_cast_size_t x) (static_cast_size_t y) = Inl out_of_range
      \<longleftrightarrow> \<not> contains b x y"
    using c by (simp add: at_checked_error)
  with c show ?thesis by (simp add: at_checked_error)
qed

theorem contains_and_at_bounds_witness:
  "contains (PixelBuffer_new 5 5 :: uint32 PixelBuffer) 4 4
   \<and> \<not> contains (PixelBuffer_new 5 5 :: uint32 PixelBuffer) (- 1) 0
   \<and> at_checked (PixelBuffer_new 5 5 :: uint32 PixelBuffer) 5 0 = Inl out_of_range
   \<and> at_checked (PixelBuffer_new 5 5 :: uint32 PixelBuffer) (static_cast_size_t (- 1)) (static_cast_size_t 0)
       = Inl out_of_range"
  using contains_and_at_bounds [of "PixelBuffer_new 5 5 :: uint32 PixelBuffer" 4 4 5 0]
    contains_and_at_bounds [of "PixelBuffer_new 5 5 :: uint32 PixelBuffer" "- 1" 0 5 0]
  by (simp add: PixelBuffer_new_def clear_def INT_MAX_def INT_MIN_def)

text \<open>
  Claim C8 fails in the code. \<open>contains\<close>, commented as the check that the coordinates
  are within bounds, narrows the width with \<open>static_cast<int>(width_)\<close>. For the buffer of
  width \<open>2^31\<close> and height 1 that value is \<open>- 2^31\<close>: the pixel \<open>(0, 0)\<close> satisfies
  \<open>0 \<le> x < W\<close> and \<open>0 \<le> y < H\<close>, the checked accessor \<open>at(0, 0)\<close> returns it without an
  exception, and \<open>contains(0, 0)\<close> is false.
\<close>

theorem contains_rejects_wide_buffer:
  "(0::int) \<le> 0 \<and> (0::int) < uint (m_width (PixelBuffer_new (2 ^ 31) 1 :: uint8 PixelBuffer))
   \<and> (0::int) < uint (m_height (PixelBuffer_new (2 ^ 31) 1 :: uint8 PixelBuffer))
   \<and> at_checked (PixelBuffer_new (2 ^ 31) 1 :: uint8 PixelBuffer) 0 0 = Inr 0
   \<and> static_cast_int (m_width (PixelBuffer_new (2 ^ 31) 1 :: uint8 PixelBuffer)) = - (2 ^ 31)
   \<and> \<not> contains (PixelBuffer_new (2 ^ 31) 1 :: uint8 PixelBuffer) 0 0"
  by (simp add: contains_def at_checked_def offset_def PixelBuffer_new_def clear_def static_cast_int_def)

subsection \<open>Alpha blending\<close>

lemma alpha_of_or_255: "alpha_of (w OR 255) = 255"
  by (simp add: alpha_of_def word_ao_absorbs)

text \<open>
  Claim C7, as the code has it. For every background and foreground pixel,
  \<open>blend_pixels\<close> returns the background unchanged when the foreground's alpha is 0,
  returns the foreground when its alpha is 255, and whenever the foreground's alpha is
  not 0 the pixel it returns has alpha 255.
\<close>

theorem blend_pixels_alpha:
  "(alpha_of foreground = 0 \<longrightarrow> blend_pixels fl background foreground = background)
   \<and> (alpha_of foreground = 255 \<longrightarrow> blend_pixels fl background foreground = foreground)
   \<and> (alpha_of foreground \<noteq> 0 \<longrightarrow> alpha_of (blend_pixels fl background foreground) = 255)"
  by (simp add: blend_pixels_def Let_def alpha_of_or_255)

theorem blend_pixels_alpha_witness:
  "blend_pixels TYPE(rat) 0x10203040 0x50607000 = 0x10203040
   \<and> blend_pixels TYPE(rat) 0x10203040 0x506070FF = 0x506070FF
   \<and> alpha_of (blend_pixels TYPE(rat) 0x10203040 0x50607080) = 255"
  using blend_pixels_alpha [of "0x50607000" "TYPE(rat)" "0x10203040"]
    blend_pixels_alpha [of "0x506070FF" "TYPE(rat)" "0x10203040"]
    blend_pixels_alpha [of "0x50607080" "TYPE(rat)" "0x10203040"]
  by (simp add: alpha_of_def)

text \<open>
  The claim as stated, that the pixel written back always has alpha 255, fails when the
  foreground's alpha is 0 and the background is not opaque: blending the transparent
  pixel 0 over the transparent pixel 0 returns 0, whose alpha is 0.
\<close>

theorem blend_pixels_opaque_counterexample:
  "\<not> ((alpha_of 0 = 0 \<longrightarrow> blend_pixels TYPE(rat) 0 0 = 0)
      \<and> (alpha_of 0 = 255 \<longrightarrow> blend_pixels TYPE(rat) 0 0 = 0)
      \<and> alpha_of (blend_pixels TYPE(rat) 0 0) = 255)"
  by (simp add: blend_pixels_def alpha_of_def)

text \<open>
  The arithmetic of \<open>blend_pixels\<close> is the one of \<open>float\<close>. Blending the foreground
  \<open>0x000000FE\<close> (black, alpha 254) over the background \<open>0xFFFFFF00\<close> gives \<open>0x000000FF\<close>:
  \<open>a\<close> is \<open>254 / 255\<close> rounded, \<open>16711423 / 2^24\<close>, \<open>inv_a\<close> is \<open>65793 / 2^24\<close>, and the
  product \<open>255 * inv_a\<close>, exactly \<open>16777215 / 2^24\<close>, is below 1, so that the channel is
  0. With exact arithmetic \<open>255 * (1 - 254 / 255)\<close> would be 1.
\<close>

lemma exponent_down_numeral:
  "exponent_down (numeral k) v = (if v < 1 then exponent_down (pred_numeral k) (v * 2) - 1 else 0)"
  by (simp add: numeral_eq_Suc)

lemma exponent_up_numeral:
  "exponent_up (numeral k) v = (if 2 \<le> v then exponent_up (pred_numeral k) (v / 2) + 1 else 0)"
  by (simp add: numeral_eq_Suc)

lemma floor_numeral_fraction:
  "\<lfloor>numeral a / numeral b :: 'f::floor_ceiling\<rfloor> = numeral a div numeral b"
  using floor_divide_of_int_eq[of "numeral a" "numeral b", where ?'a = 'f] by simp

lemmas binary32_simps = binary32_def binary32_exponent_def round_half_even_def Let_def
  power_int_minus exponent_down_numeral exponent_up_numeral floor_numeral_fraction

lemma blend_pixels_channels:
  "alpha_of 0x000000FE = 254"
  "channel 24 0xFFFFFF00 = 255" "channel 16 0xFFFFFF00 = 255" "channel 8 0xFFFFFF00 = 255"
  "channel 24 0x000000FE = 0" "channel 16 0x000000FE = 0" "channel 8 0x000000FE = 0"
  by (simp_all add: alpha_of_def channel_def)

lemma binary32_a: "binary32 (uint8_to_float (254 :: uint8) / 255 :: rat) = 16711423 / 2 ^ 24"
  by (simp add: binary32_simps uint8_to_float_def)

lemma binary32_inv_a: "binary32 (1 - 16711423 / 2 ^ 24 :: rat) = 65793 / 2 ^ 24"
  by (simp add: binary32_simps)

lemma blend_channel_rounds: "blend_channel (16711423 / 2 ^ 24 :: rat) (65793 / 2 ^ 24) 255 0 = 0"
  by (simp add: blend_channel_def binary32_simps float_to_uint8_def uint8_to_float_def trunc_int_def)

lemma blend_pixels_rounds: "blend_pixels TYPE(rat) 0xFFFFFF00 0x000000FE = 0x000000FF"
  unfolding blend_pixels_def Let_def blend_pixels_channels binary32_a binary32_inv_a
    blend_channel_rounds
  by simp

text \<open>Rounding to single precision: the nearest number, ties to the even significand,
  also for a subnormal value.\<close>

lemma binary32_examples:
  "binary32 (1 / 3 :: rat) = 11184811 / 2 ^ 25"
  "binary32 (1 / 10 :: rat) = 13421773 / 2 ^ 27"
  "binary32 (16777217 :: rat) = 16777216"
  "binary32 (16777219 :: rat) = 16777220"
  "binary32 (5 / 2 ^ 150 :: rat) = 2 / 2 ^ 149"
  "binary32 (0 :: rat) = 0"
  by (simp_all add: binary32_simps)

subsection \<open>The pixels that \<open>blit\<close> leaves alone\<close>

lemma foldl_invariant:
  assumes "P a" and "\<And>a x. P a \<Longrightarrow> x \<in> set xs \<Longrightarrow> P (f a x)"
  shows "P (foldl f a xs)"
  using assms by (induction xs arbitrary: a) simp_all

lemma offset_unat:
  assumes "u < m_width d" "v < m_height d" "unat (m_width d) * unat (m_height d) < 2 ^ 64"
  shows "offset d u v = unat v * unat (m_width d) + unat u"
proof -
  have u: "unat u < unat (m_width d)" and v: "unat v < unat (m_height d)"
    using assms by (simp_all add: word_less_nat_alt)
  have "unat v * unat (m_width d) + unat u < (unat v + 1) * unat (m_width d)"
    using u by simp
  also have "\<dots> \<le> unat (m_height d) * unat (m_width d)"
    using v by (intro mult_le_mono1) simp
  finally have lt: "unat v * unat (m_width d) + unat u < 2 ^ 64"
    using assms(3) by (simp add: mult.commute)
  then have "unat v * unat (m_width d) < 2 ^ 64" by simp
  then have "unat (v * m_width d) = unat v * unat (m_width d)"
    by (simp add: unat_word_ariths)
  then show ?thesis using lt by (simp add: offset_def unat_word_ariths)
qed

lemma offset_inj:
  assumes "u < m_width d" "v < m_height d" "u' < m_width d" "v' < m_height d"
    and "unat (m_width d) * unat (m_height d) < 2 ^ 64"
    and "offset d u v = offset d u' v'"
  shows "u = u' \<and> v = v'"
proof -
  let ?W = "unat (m_width d)"
  have eq: "unat v * ?W + unat u = unat v' * ?W + unat u'"
    using assms by (simp add: offset_unat)
  have u: "unat u < ?W" and u': "unat u' < ?W"
    using assms by (simp_all add: word_less_nat_alt)
  from eq have "(unat v * ?W + unat u) div ?W = (unat v' * ?W + unat u') div ?W" by simp
  with u u' have "unat v = unat v'" by simp
  moreover from eq have "(unat v * ?W + unat u) mod ?W = (unat v' * ?W + unat u') mod ?W" by simp
  with u u' have "unat u = unat u'" by simp
  ultimately show ?thesis by (simp add: word_unat_eq_iff)
qed

lemma contains_size_t:
  assumes "contains d x y"
  shows "static_cast_size_t x < m_width d \<and> static_cast_size_t y < m_height d
       \<and> uint (static_cast_size_t x) = x \<and> uint (static_cast_size_t y) = y"
proof -
  from assms have x: "0 \<le> x" "x < static_cast_int (m_width d)"
    and y: "0 \<le> y" "y < static_cast_int (m_height d)"
    by (simp_all add: contains_def)
  from x have xw: "x < uint (m_width d)" using static_cast_int_le[of "m_width d"] by linarith
  from y have yh: "y < uint (m_height d)" using static_cast_int_le[of "m_height d"] by linarith
  have "uint (m_width d) < 2 ^ 64" "uint (m_height d) < 2 ^ 64"
    using uint_lt2p[of "m_width d"] uint_lt2p[of "m_height d"] by simp_all
  with xw yh x y have ux: "uint (word_of_int x :: size_t) = x" and uy: "uint (word_of_int y :: size_t) = y"
    by (simp_all add: uint_word_of_int)
  with xw yh show ?thesis by (simp add: static_cast_size_t_def word_less_def)
qed

lemma set_pixel_other:
  assumes "unat (m_width d) * unat (m_height d) < 2 ^ 64"
    and "u < m_width d" "v < m_height d" "contains d x y"
    and "uint u \<noteq> x \<or> uint v \<noteq> y"
  shows "get_pixel (set_pixel d (static_cast_size_t x) (static_cast_size_t y) c) u v = get_pixel d u v"
proof -
  from contains_size_t[OF assms(4)]
  have b: "static_cast_size_t x < m_width d" "static_cast_size_t y < m_height d"
    and e: "uint (static_cast_size_t x) = x" "uint (static_cast_size_t y) = y" by simp_all
  have "offset d (static_cast_size_t x) (static_cast_size_t y) \<noteq> offset d u v"
  proof
    assume "offset d (static_cast_size_t x) (static_cast_size_t y) = offset d u v"
    from offset_inj[OF b assms(2,3,1) this] e assms(5) show False by auto
  qed
  then show ?thesis by (simp add: get_pixel_def set_pixel_def offset_def)
qed

lemma blit_step_frame:
  assumes "unat (m_width d) * unat (m_height d) < 2 ^ 64"
    and "u < m_width d" "v < m_height d"
    and "\<not> (p_x p \<le> uint u \<and> uint u < p_x p + uint sw \<and> p_y p \<le> uint v \<and> uint v < p_y p + uint sh)"
    and "0 \<le> x" "x < uint sw" "0 \<le> y" "y < uint sh"
  shows "get_pixel (blit_step src p y d x) u v = get_pixel d u v
       \<and> m_width (blit_step src p y d x) = m_width d \<and> m_height (blit_step src p y d x) = m_height d"
proof (cases "contains d (p_x p + x) (p_y p + y)")
  case True
  from assms(4-8) have "uint u \<noteq> p_x p + x \<or> uint v \<noteq> p_y p + y"
    by auto
  from set_pixel_other[OF assms(1-3) True this] True show ?thesis
    by (simp add: blit_step_def Let_def set_pixel_def)
next
  case False
  then show ?thesis by (simp add: blit_step_def Let_def)
qed

lemma for_range_set: "x \<in> set (for_range n) \<Longrightarrow> 0 \<le> x \<and> x < n"
  by (auto simp: for_range_def)

lemma for_range_cast: "x \<in> set (for_range (static_cast_int w)) \<Longrightarrow> 0 \<le> x \<and> x < uint w"
proof -
  assume a: "x \<in> set (for_range (static_cast_int w))"
  then have "0 \<le> x" "x < static_cast_int w" by (simp_all add: for_range_set)
  then show ?thesis using static_cast_int_le[of w] by linarith
qed

lemma blit_step_size:
  "m_width (blit_step src p y d x) = m_width d \<and> m_height (blit_step src p y d x) = m_height d"
  by (simp add: blit_step_def Let_def set_pixel_def)

lemma blit_size:
  "m_width (blit D src p) = m_width D \<and> m_height (blit D src p) = m_height D"
proof -
  let ?sw = "m_width (source_view src D)" and ?sh = "m_height (source_view src D)"
  let ?P = "\<lambda>d. m_width d = m_width D \<and> m_height d = m_height D"
  have row: "?P (foldl (blit_step src p y) d (for_range (static_cast_int ?sw)))" if "?P d" for d y
    by (rule foldl_invariant[where P = ?P]) (simp_all add: that blit_step_size)
  have "?P (foldl (\<lambda>d y. foldl (blit_step src p y) d (for_range (static_cast_int ?sw))) D
             (for_range (static_cast_int ?sh)))"
    by (rule foldl_invariant[where P = ?P]) (simp_all add: row)
  then show ?thesis by (simp add: blit_def Let_def)
qed

lemma blit_pixel:
  assumes nowrap: "unat (m_width D) * unat (m_height D) < 2 ^ 64"
    and "u < m_width D" and "v < m_height D"
    and "\<not> (p_x p \<le> uint u \<and> uint u < p_x p + uint (m_width (source_view src D))
           \<and> p_y p \<le> uint v \<and> uint v < p_y p + uint (m_height (source_view src D)))"
  shows "get_pixel (blit D src p) u v = get_pixel D u v"
proof -
  let ?sw = "m_width (source_view src D)" and ?sh = "m_height (source_view src D)"
  let ?P = "\<lambda>d. get_pixel d u v = get_pixel D u v \<and> m_width d = m_width D \<and> m_height d = m_height D"
  have row: "?P (foldl (blit_step src p y) d (for_range (static_cast_int ?sw)))"
    if "?P d" "y \<in> set (for_range (static_cast_int ?sh))" for d y
  proof (rule foldl_invariant[where P = ?P])
    show "?P d" by fact
  next
    fix a x assume a: "?P a" and x: "x \<in> set (for_range (static_cast_int ?sw))"
    from that(2) have y: "0 \<le> y" "y < uint ?sh" using for_range_cast by blast+
    from x have x': "0 \<le> x" "x < uint ?sw" using for_range_cast by blast+
    from a nowrap assms(2,3) have "unat (m_width a) * unat (m_height a) < 2 ^ 64"
      "u < m_width a" "v < m_height a" by simp_all
    from blit_step_frame[OF this assms(4) x' y, of src] a show "?P (blit_step src p y a x)" by simp
  qed
  have "?P (foldl (\<lambda>d y. foldl (blit_step src p y) d (for_range (static_cast_int ?sw))) D
             (for_range (static_cast_int ?sh)))"
    by (rule foldl_invariant[where P = ?P]) (simp_all add: row)
  then show ?thesis by (simp add: blit_def Let_def)
qed

text \<open>
  Claim C10, as the code has it. Let \<open>D\<close> be a destination buffer, \<open>src\<close> the source
  (another buffer, or \<open>D\<close> itself) and \<open>p\<close> a position. The width and the height of \<open>D\<close>
  are the same after \<open>D.blit(S, p)\<close> as before. If the product of the width and the
  height of \<open>D\<close> does not overflow \<open>size_t\<close> (it is below \<open>2^64\<close>), every pixel \<open>(u, v)\<close> of
  \<open>D\<close> outside the translated source rectangle \<open>p.x \<le> u < p.x + S.width\<close>,
  \<open>p.y \<le> v < p.y + S.height\<close> has the same value after the call as before.
\<close>

theorem blit_frame:
  "m_width (blit D src p) = m_width D \<and> m_height (blit D src p) = m_height D
   \<and> (unat (m_width D) * unat (m_height D) < 2 ^ 64 \<and> u < m_width D \<and> v < m_height D
      \<and> \<not> (p_x p \<le> uint u \<and> uint u < p_x p + uint (m_width (source_view src D))
           \<and> p_y p \<le> uint v \<and> uint v < p_y p + uint (m_height (source_view src D)))
      \<longrightarrow> get_pixel (blit D src p) u v = get_pixel D u v)"
  using blit_size[of D src p] blit_pixel[of D u v p src] by blast

theorem blit_frame_witness:
  "get_pixel (blit (PixelBuffer_new 2 2) (Other \<lparr>m_data = [7], m_width = 1, m_height = 1\<rparr>)
       \<lparr>p_x = 0, p_y = 1\<rparr>) 1 0 = (0 :: uint32)
   \<and> m_width (blit (PixelBuffer_new 2 2 :: uint32 PixelBuffer)
       (Other \<lparr>m_data = [7], m_width = 1, m_height = 1\<rparr>) \<lparr>p_x = 0, p_y = 1\<rparr>) = 2
   \<and> m_height (blit (PixelBuffer_new 2 2 :: uint32 PixelBuffer)
       (Other \<lparr>m_data = [7], m_width = 1, m_height = 1\<rparr>) \<lparr>p_x = 0, p_y = 1\<rparr>) = 2"
  using blit_frame [of "PixelBuffer_new 2 2 :: uint32 PixelBuffer"
      "Other \<lparr>m_data = [7], m_width = 1, m_height = 1\<rparr>" "\<lparr>p_x = 0, p_y = 1\<rparr>" 1 0]
  by (simp add: PixelBuffer_new_def clear_def get_pixel_def offset_def)

text \<open>
  The claim as stated, for every destination buffer, fails when the product of the width
  and the height overflows \<open>size_t\<close>. The constructor call \<open>PixelBuffer(2^63 + 1, 2)\<close>
  allocates \<open>(2^63 + 1) * 2 mod 2^64 = 2\<close> pixels. Blitting a source of one pixel of
  value 7 at the position \<open>(0, 0)\<close> writes the pixel \<open>(0, 0)\<close>, at offset 0. The pixel
  \<open>(2^63 - 1, 1)\<close> is within the width and the height and outside the rectangle
  \<open>0 \<le> u < 1\<close>, \<open>0 \<le> v < 1\<close>; its offset \<open>1 * (2^63 + 1) + 2^63 - 1\<close> is 0 in \<open>size_t\<close> as
  well, and its value changes from 0 to 7.
\<close>

theorem blit_overflow_counterexample:
  "(2 ^ 63 - 1 :: size_t) < m_width (PixelBuffer_new (2 ^ 63 + 1) 2 :: uint32 PixelBuffer)
   \<and> (1 :: size_t) < m_height (PixelBuffer_new (2 ^ 63 + 1) 2 :: uint32 PixelBuffer)
   \<and> \<not> ((0::int) \<le> uint (2 ^ 63 - 1 :: size_t) \<and> uint (2 ^ 63 - 1 :: size_t) < 0 + uint (1 :: size_t)
        \<and> (0::int) \<le> uint (1 :: size_t) \<and> uint (1 :: size_t) < 0 + uint (1 :: size_t))
   \<and> get_pixel (PixelBuffer_new (2 ^ 63 + 1) 2 :: uint32 PixelBuffer) (2 ^ 63 - 1) 1 = 0
   \<and> get_pixel (blit (PixelBuffer_new (2 ^ 63 + 1) 2 :: uint32 PixelBuffer)
        (Other \<lparr>m_data = [7], m_width = 1, m_height = 1\<rparr>) \<lparr>p_x = 0, p_y = 0\<rparr>) (2 ^ 63 - 1) 1 = 7"
  by (simp add: PixelBuffer_new_def clear_def get_pixel_def set_pixel_def offset_def blit_def
      blit_step_def for_range_def contains_def static_cast_int_def static_cast_size_t_def Let_def)

subsection \<open>The line loop returns\<close>

lemma draw_line_loop_total:
  assumes "0 \<le> i" "i \<le> dx" "0 \<le> j" "j \<le> dy"
    and "sx = 1 \<or> sx = - 1" "sy = 1 \<or> sy = - 1"
    and "x1 = x + sx * (dx - i)" "y1 = y + sy * (dy - j)"
    and "err = dx - dy - i * dy + j * dx"
  shows "\<exists>b'. draw_line_loop x1 y1 dx dy sx sy col buffer x y err = Some b'"
  using assms
proof (induction "nat (dx - i + (dy - j))" arbitrary: i j x y err buffer rule: less_induct)
  case less
  let ?buffer' = "if contains buffer x y
                  then set_pixel buffer (static_cast_size_t x) (static_cast_size_t y) col else buffer"
  show ?case
  proof (cases "x = x1 \<and> y = y1")
    case True
    then show ?thesis by (subst draw_line_loop.simps) (simp add: Let_def)
  next
    case False
    from less.prems have xi: "x = x1 \<longleftrightarrow> i = dx" and yj: "y = y1 \<longleftrightarrow> j = dy" by auto
    with False have notend: "i < dx \<or> j < dy" using less.prems by auto
    have dx0: "0 \<le> dx" and dy0: "0 \<le> dy" using less.prems by simp_all
    let ?xs = "2 * err > - dy" and ?ys = "2 * err < dx"
    have noover_x: "i < dx" if ?xs
    proof (rule ccontr)
      assume "\<not> i < dx"
      with less.prems have i: "i = dx" by simp
      with notend have j: "j < dy" by simp
      have "dx * (1 + j - dy) \<le> 0" using dx0 j by (intro mult_nonneg_nonpos) simp_all
      moreover have "err = dx * (1 + j - dy) - dy" using less.prems(9) i by (simp add: algebra_simps)
      ultimately show False using that dy0 by simp
    qed
    have noover_y: "j < dy" if ?ys
    proof (rule ccontr)
      assume "\<not> j < dy"
      with less.prems have j: "j = dy" by simp
      with notend have i: "i < dx" by simp
      have "0 \<le> dy * (dx - 1 - i)" using dy0 i by (intro mult_nonneg_nonneg) simp_all
      moreover have "err = dx + dy * (dx - 1 - i)" using less.prems(9) j by (simp add: algebra_simps)
      ultimately show False using that dx0 by simp
    qed
    have some: "?xs \<or> ?ys"
    proof (rule ccontr)
      assume "\<not> (?xs \<or> ?ys)"
      then have "dx \<le> - dy" by simp
      with dx0 dy0 have "dx = 0" "dy = 0" by simp_all
      with less.prems notend show False by simp
    qed
    let ?i' = "if ?xs then i + 1 else i" and ?j' = "if ?ys then j + 1 else j"
    let ?x' = "if ?xs then x + sx else x" and ?y' = "if ?ys then y + sy else y"
    let ?err1 = "if ?xs then err - dy else err"
    let ?err2 = "if ?ys then ?err1 + dx else ?err1"
    have m: "nat (dx - ?i' + (dy - ?j')) < nat (dx - i + (dy - j))"
      using some noover_x noover_y less.prems by auto
    have p1: "0 \<le> ?i'" "?i' \<le> dx" "0 \<le> ?j'" "?j' \<le> dy"
      using noover_x noover_y less.prems by auto
    have p2: "x1 = ?x' + sx * (dx - ?i')" "y1 = ?y' + sy * (dy - ?j')"
      using less.prems by (auto simp: algebra_simps)
    have p3: "?err2 = dx - dy - ?i' * dy + ?j' * dx"
      using less.prems(9) by (auto simp: algebra_simps)
    from less.hyps[OF m p1 less.prems(5,6) p2 p3, of ?buffer']
    obtain b' where "draw_line_loop x1 y1 dx dy sx sy col ?buffer' ?x' ?y' ?err2 = Some b'" by blast
    then show ?thesis using False
      by (subst draw_line_loop.simps) (simp add: Let_def)
  qed
qed

lemma draw_line_total: "\<exists>b'. draw_line buffer x0 y0 x1 y1 col = Some b'"
  unfolding draw_line_def Let_def
  by (rule draw_line_loop_total[where i = 0 and j = 0]) (auto simp: abs_if)

subsection \<open>The tree that \<open>string_to_tree\<close> builds\<close>

lemma tree_decay [simp]: "tree (decay params it) = tree it"
  and current_branch_decay [simp]: "current_branch (decay params it) = current_branch it"
  and rng_decay [simp]: "rng (decay params it) = rng it"
  and state_stack_decay [simp]: "state_stack (decay params it) = state_stack it"
  by (simp_all add: decay_def Let_def)

lemma tree_turn [simp]: "tree (turn lib params l it) = tree it"
  and current_branch_turn [simp]: "current_branch (turn lib params l it) = current_branch it"
  by (simp_all add: turn_def Let_def split_def)

lemma symbol_other:
  "c \<noteq> CHR ''F'' \<Longrightarrow> tree (symbol lib params c it) = tree it
     \<and> current_branch (symbol lib params c it) = current_branch it"
  by (simp add: symbol_def)

lemma forward_branches:
  "length (all_branches (tree (forward params it))) = Suc (length (all_branches (tree it)))"
  by (simp add: forward_def Let_def split_def split: option.split)

lemma forward_parameters [simp]: "parameters (tree (forward params it)) = parameters (tree it)"
  and forward_clusters [simp]: "leaf_clusters (tree (forward params it)) = leaf_clusters (tree it)"
  and forward_rng [simp]: "rng (forward params it) = rng it"
  by (simp_all add: forward_def Let_def split_def split: option.split)

lemma linked_snoc:
  assumes "linked bs" "length bs = Suc n" "parent nb = Some n" "children nb = []"
  shows "linked (bs[n := (bs ! n)\<lparr>children := children (bs ! n) @ [Suc n]\<rparr>] @ [nb])"
  using assms by (auto simp: linked_def nth_append nth_list_update less_Suc_eq)

lemma linked_single: "children b = [] \<Longrightarrow> parent b = None \<Longrightarrow> linked [b]"
  by (simp add: linked_def)

lemma forward_chained: "chained it \<Longrightarrow> chained (forward params it)"
proof -
  assume c: "chained it"
  show ?thesis
  proof (cases "all_branches (tree it)")
    case Nil
    with c have "root (tree it) = None" by (simp add: chained_def)
    with Nil show ?thesis
      by (simp add: chained_def forward_def Let_def Branch_new_def linked_single)
  next
    case (Cons b bs)
    then obtain n where n: "length (all_branches (tree it)) = Suc n" by simp
    with c Cons have r: "root (tree it) = Some 0"
      and cb: "current_branch it = Some n"
      and l: "linked (all_branches (tree it))"
      by (simp_all add: chained_def)
    from n r cb show ?thesis
      by (simp add: chained_def forward_def Let_def Branch_new_def linked_snoc[OF l n])
  qed
qed

lemma step_chained: "chained it \<Longrightarrow> chained (step lib params it c)"
proof (cases "c = CHR ''F''")
  case True
  assume "chained it"
  then have "chained (forward params it)" by (rule forward_chained)
  with True show ?thesis by (simp add: step_def symbol_def chained_def)
next
  case False
  assume "chained it"
  with False show ?thesis by (simp add: step_def chained_def symbol_other)
qed

lemma start_chained: "chained (start_interpreter params rng0)"
  by (simp add: chained_def start_interpreter_def Let_def TreeStructure_new_def linked_def)

lemma run_chained: "chained it \<Longrightarrow> chained (foldl (step lib params) it s)"
  by (induction s arbitrary: it) (simp_all add: step_chained)


lemma tree_symbol: "tree (symbol lib params c it) = (if c = CHR ''F'' then tree (forward params it) else tree it)"
  by (simp add: symbol_def)

lemma tree_step: "tree (step lib params it c) = (if c = CHR ''F'' then tree (forward params it) else tree it)"
  by (simp add: step_def tree_symbol)

lemma run_parameters: "parameters (tree (foldl (step lib params) it s)) = parameters (tree it)"
  by (induction s arbitrary: it) (simp_all add: tree_step)

lemma run_clusters: "leaf_clusters (tree (foldl (step lib params) it s)) = leaf_clusters (tree it)"
  by (induction s arbitrary: it) (simp_all add: tree_step)

lemma run_branches:
  "length (all_branches (tree (foldl (step lib params) it s)))
     = length (all_branches (tree it)) + count_list s CHR ''F''"
  by (induction s arbitrary: it) (simp_all add: tree_step forward_branches)

lemma string_to_tree_parameters: "parameters (fst (string_to_tree lib s params rng0)) = params"
  by (simp add: string_to_tree_def Let_def run_parameters start_interpreter_def TreeStructure_new_def)

lemma string_to_tree_clusters: "leaf_clusters (fst (string_to_tree lib s params rng0)) = []"
  by (simp add: string_to_tree_def Let_def run_clusters start_interpreter_def TreeStructure_new_def)

lemma string_to_tree_branches:
  "length (all_branches (fst (string_to_tree lib s params rng0))) = count_list s CHR ''F''"
  by (simp add: string_to_tree_def Let_def run_branches start_interpreter_def TreeStructure_new_def)

lemma string_to_tree_chained:
  "linked (all_branches (fst (string_to_tree lib s params rng0)))
   \<and> root (fst (string_to_tree lib s params rng0))
       = (if all_branches (fst (string_to_tree lib s params rng0)) = [] then None else Some 0)"
  using run_chained[OF start_chained, of lib params params rng0 s]
  by (simp add: string_to_tree_def Let_def chained_def)

lemma get_leaf_branches_rec_linked:
  assumes "linked bs" "i < length bs" "length bs - i \<le> n"
  shows "get_leaf_branches_rec n bs i acc = Some (acc @ [length bs - 1])"
  using assms
proof (induction n arbitrary: i)
  case 0
  then show ?case by simp
next
  case (Suc n)
  from Suc.prems(1,2) have ch: "children (bs ! i) = (if Suc i < length bs then [Suc i] else [])"
    by (simp add: linked_def)
  show ?case
  proof (cases "Suc i < length bs")
    case True
    with Suc.prems have "get_leaf_branches_rec n bs (Suc i) acc = Some (acc @ [length bs - 1])"
      by (intro Suc.IH) simp_all
    with True ch show ?thesis by (simp add: is_leaf_def)
  next
    case False
    with Suc.prems(2) have "i = length bs - 1" by simp
    with False ch show ?thesis by (simp add: is_leaf_def)
  qed
qed

lemma get_leaf_branches_linked:
  assumes "linked (all_branches t)"
    and "root t = (if all_branches t = [] then None else Some 0)"
  shows "get_leaf_branches t = Some (if all_branches t = [] then [] else [length (all_branches t) - 1])"
proof (cases "all_branches t = []")
  case True
  with assms show ?thesis by (simp add: get_leaf_branches_def)
next
  case False
  with assms(1) have "get_leaf_branches_rec (length (all_branches t)) (all_branches t) 0 []
      = Some ([] @ [length (all_branches t) - 1])"
    by (intro get_leaf_branches_rec_linked) simp_all
  with False assms(2) show ?thesis by (simp add: get_leaf_branches_def)
qed

subsection \<open>Rendering returns\<close>

lemma draw_thick_line_total: "\<exists>b'. draw_thick_line buffer s e thick col = Some b'"
proof -
  have "\<exists>b'. foldl (\<lambda>acc off.
                  Option.bind acc (\<lambda>b.
                  Option.bind (draw_line b (x0 + off) y0 (x1 + off) y1 col) (\<lambda>b'.
                  draw_line b' x0 (y0 + off) x1 (y1 + off) col)))
           (Some b) offs = Some b'" for b x0 y0 x1 y1 and offs :: "int list"
  proof (induction offs arbitrary: b)
    case Nil
    then show ?case by simp
  next
    case (Cons off offs)
    obtain b1 where b1: "draw_line b (x0 + off) y0 (x1 + off) y1 col = Some b1"
      using draw_line_total by blast
    obtain b2 where b2: "draw_line b1 x0 (y0 + off) x1 (y1 + off) col = Some b2"
      using draw_line_total by blast
    from Cons.IH[of b2] b1 b2 show ?case by simp
  qed
  then show ?thesis by (simp add: draw_thick_line_def Let_def)
qed

lemma render_branches_total: "\<exists>b'. render_branches buffer t = Some b'"
proof -
  have "\<exists>b'. foldl (\<lambda>acc branch.
              Option.bind acc (\<lambda>b.
              draw_thick_line b (start_point branch) (end_point branch) (Branch.thickness branch)
                (to_rgba (Branch.color branch))))
       (Some b) bs = Some b'" for b and bs :: "'a Branch list"
  proof (induction bs arbitrary: b)
    case Nil
    then show ?case by simp
  next
    case (Cons br bs)
    obtain b1 where "draw_thick_line b (start_point br) (end_point br) (Branch.thickness br)
                (to_rgba (Branch.color br)) = Some b1"
      using draw_thick_line_total by blast
    with Cons.IH[of b1] show ?case by simp
  qed
  then show ?thesis by (simp add: render_branches_def)
qed

lemma render_total: "\<exists>b. render t = Some b"
proof -
  obtain b where "render_branches (clear (PixelBuffer_new (static_cast_size_t (canvas_width (parameters t)))
                     (static_cast_size_t (canvas_height (parameters t)))) 0) t = Some b"
    using render_branches_total by blast
  then show ?thesis by (simp add: render_def Let_def)
qed

subsection \<open>The number of \<open>F\<close> in the generated string\<close>

lemma rewrite_count_ge:
  "count_list acc CHR ''F'' + count_list cs CHR ''F''
     \<le> count_list (fst (rewrite lib params cs acc rng0)) CHR ''F''"
proof (induction cs arbitrary: acc rng0)
  case Nil
  then show ?case by simp
next
  case (Cons c cs)
  show ?case
  proof (cases "c = CHR ''F''")
    case True
    obtain r rng' where d: "next_float lib rng0 = (r, rng')" by (cases "next_float lib rng0")
    show ?thesis
    proof (cases "r < branch_probability (branches params)")
      case yes: True
      from Cons.IH[of "acc @ ''F'' @ ''[+F][-F]''" rng'] True d yes show ?thesis by simp
    next
      case no: False
      from Cons.IH[of "acc @ ''F''" rng'] True d no show ?thesis by simp
    qed
  next
    case False
    from Cons.IH[of "acc @ [c]" rng0] False show ?thesis by simp
  qed
qed

lemma iterate_count_ge:
  "count_list result CHR ''F'' \<le> count_list (fst (iterate lib params n result rng0)) CHR ''F''"
proof (induction n arbitrary: result rng0)
  case 0
  then show ?case by simp
next
  case (Suc n)
  obtain nr rng' where r: "rewrite lib params result [] rng0 = (nr, rng')"
    by (cases "rewrite lib params result [] rng0")
  from rewrite_count_ge[of "[]" result lib params rng0] r
  have "count_list result CHR ''F'' \<le> count_list nr CHR ''F''" by simp
  also have "\<dots> \<le> count_list (fst (iterate lib params n nr rng')) CHR ''F''" by (rule Suc.IH)
  finally show ?case using r by simp
qed

lemma generate_string_has_F:
  "0 < count_list (fst (generate_string lib params rng0)) CHR ''F''"
  using iterate_count_ge[of "''F''" lib params "nat (BranchParameters.max_depth (branches params))" rng0]
  by (simp add: generate_string_def)

lemma rewrite_count_all:
  assumes "\<And>s. fst (uniform_real lib s) < branch_probability (branches params)"
  shows "count_list (fst (rewrite lib params cs acc rng0)) CHR ''F''
       = count_list acc CHR ''F'' + 3 * count_list cs CHR ''F''"
proof (induction cs arbitrary: acc rng0)
  case Nil
  then show ?case by simp
next
  case (Cons c cs)
  show ?case
  proof (cases "c = CHR ''F''")
    case True
    obtain r rng' where d: "next_float lib rng0 = (r, rng')" by (cases "next_float lib rng0")
    with assms[of rng0] have yes: "r < branch_probability (branches params)"
      by (simp add: next_float_def)
    from Cons.IH[of "acc @ ''F'' @ ''[+F][-F]''" rng'] True d yes show ?thesis by simp
  next
    case False
    from Cons.IH[of "acc @ [c]" rng0] False show ?thesis by simp
  qed
qed

lemma iterate_count_all:
  assumes "\<And>s. fst (uniform_real lib s) < branch_probability (branches params)"
  shows "count_list (fst (iterate lib params n result rng0)) CHR ''F''
       = 3 ^ n * count_list result CHR ''F''"
proof (induction n arbitrary: result rng0)
  case 0
  then show ?case by simp
next
  case (Suc n)
  obtain nr rng' where r: "rewrite lib params result [] rng0 = (nr, rng')"
    by (cases "rewrite lib params result [] rng0")
  from rewrite_count_all[OF assms, of result "[]" rng0] r
  have "count_list nr CHR ''F'' = 3 * count_list result CHR ''F''" by simp
  with Suc.IH[of nr rng'] r show ?case by simp
qed

lemma generate_string_count_all:
  assumes "\<And>s. fst (uniform_real lib s) < branch_probability (branches params)"
  shows "count_list (fst (generate_string lib params rng0)) CHR ''F''
       = 3 ^ nat (BranchParameters.max_depth (branches params))"
  using iterate_count_all[OF assms, of "nat (BranchParameters.max_depth (branches params))" "''F''" rng0]
  by (simp add: generate_string_def)

subsection \<open>The structure that \<open>generate\<close> renders\<close>

lemma place_cluster_keeps:
  "all_branches (fst (place_cluster lib acc b)) = all_branches (fst acc)
   \<and> parameters (fst (place_cluster lib acc b)) = parameters (fst acc)
   \<and> root (fst (place_cluster lib acc b)) = root (fst acc)"
  by (simp add: place_cluster_def Let_def split_def)

lemma place_clusters_keep:
  "all_branches (fst (foldl (place_cluster lib) acc bs)) = all_branches (fst acc)
   \<and> parameters (fst (foldl (place_cluster lib) acc bs)) = parameters (fst acc)"
  by (induction bs arbitrary: acc) (simp_all add: place_cluster_keeps)

lemma place_cluster_fails:
  assumes "\<not> fst (uniform_real lib (snd acc)) < density (leaves (parameters (fst acc)))"
  shows "fst (place_cluster lib acc b) = fst acc"
  using assms by (simp add: place_cluster_def Let_def split_def next_float_def)

lemma place_clusters_fail:
  assumes "\<And>s. \<not> fst (uniform_real lib s) < density (leaves (parameters (fst acc)))"
  shows "fst (foldl (place_cluster lib) acc bs) = fst acc"
  using assms
proof (induction bs arbitrary: acc)
  case Nil
  then show ?case by simp
next
  case (Cons b bs)
  have e: "fst (place_cluster lib acc b) = fst acc"
    using Cons.prems by (intro place_cluster_fails) simp
  then have "fst (foldl (place_cluster lib) (place_cluster lib acc b) bs) = fst (place_cluster lib acc b)"
    using Cons.prems by (intro Cons.IH) simp
  with e show ?case by simp
qed

lemma calculate_bounding_box_keeps [simp]:
  "all_branches (calculate_bounding_box t) = all_branches t"
  "leaf_clusters (calculate_bounding_box t) = leaf_clusters t"
  "parameters (calculate_bounding_box t) = parameters t"
  "TreeStructure.generation_id (calculate_bounding_box t) = TreeStructure.generation_id t"
  by (simp_all add: calculate_bounding_box_def Let_def split: list.split)

lemma skeleton_parameters: "parameters (fst (skeleton lib params seed)) = validate params"
  by (simp add: skeleton_def Let_def split_def string_to_tree_parameters)

lemma skeleton_clusters: "leaf_clusters (fst (skeleton lib params seed)) = []"
  by (simp add: skeleton_def Let_def split_def string_to_tree_clusters)

lemma skeleton_branches:
  "length (all_branches (fst (skeleton lib params seed)))
     = count_list (fst (generate_string lib (validate params) (Random lib seed))) CHR ''F''"
  by (simp add: skeleton_def Let_def split_def string_to_tree_branches)

lemma skeleton_leaf_branches: "\<exists>ls. get_leaf_branches (fst (skeleton lib params seed)) = Some ls"
proof -
  let ?g = "generate_string lib (validate params) (Random lib seed)"
  have "fst (skeleton lib params seed) = fst (string_to_tree lib (fst ?g) (validate params) (snd ?g))"
    by (simp add: skeleton_def Let_def split_def)
  with string_to_tree_chained[of lib "fst ?g" "validate params" "snd ?g"]
  have "linked (all_branches (fst (skeleton lib params seed)))"
    "root (fst (skeleton lib params seed))
       = (if all_branches (fst (skeleton lib params seed)) = [] then None else Some 0)"
    by simp_all
  from get_leaf_branches_linked[OF this] show ?thesis by blast
qed

lemma structure_of_total:
  "\<exists>t. structure_of lib params seed = Some t
     \<and> parameters t = validate params
     \<and> length (all_branches t) = count_list (fst (generate_string lib (validate params) (Random lib seed))) CHR ''F''
     \<and> (density (leaves (validate params)) \<le> 0
          \<or> (\<forall>s. \<not> fst (uniform_real lib s) < density (leaves (validate params)))
        \<longrightarrow> leaf_clusters t = [])"
proof -
  let ?sk = "skeleton lib params seed"
  obtain ls where ls: "get_leaf_branches (fst ?sk) = Some ls"
    using skeleton_leaf_branches by blast
  show ?thesis
  proof (cases "density (leaves (validate params)) \<le> 0")
    case True
    then show ?thesis
      by (simp add: structure_of_def generate_leaf_clusters_def skeleton_parameters skeleton_clusters
          skeleton_branches)
  next
    case False
    let ?r = "foldl (place_cluster lib) (fst ?sk, snd ?sk) ls"
    from False ls have g: "generate_leaf_clusters lib (fst ?sk) (snd ?sk) = Some ?r"
      by (simp add: generate_leaf_clusters_def skeleton_parameters)
    have k: "all_branches (fst ?r) = all_branches (fst ?sk)" "parameters (fst ?r) = parameters (fst ?sk)"
      using place_clusters_keep[of lib "(fst ?sk, snd ?sk)" ls] by simp_all
    have "leaf_clusters (fst ?r) = []"
      if "\<forall>s. \<not> fst (uniform_real lib s) < density (leaves (validate params))"
    proof -
      have "fst ?r = fst (fst ?sk, snd ?sk)"
        using that by (intro place_clusters_fail) (simp add: skeleton_parameters)
      then show ?thesis by (simp add: skeleton_clusters)
    qed
    with False g k show ?thesis
      by (simp add: structure_of_def skeleton_parameters skeleton_branches)
  qed
qed

lemma generate_result:
  "\<exists>t pb. structure_of lib params (fst (resolve_seed dev params)) = Some t \<and> render t = Some pb
     \<and> generate lib gen dev params
         = Some ((pb, metadata_of t (fst (resolve_seed dev params))),
                 gen\<lparr>m_rng := snd (the (generate_leaf_clusters lib
                                 (fst (skeleton lib params (fst (resolve_seed dev params))))
                                 (snd (skeleton lib params (fst (resolve_seed dev params)))))),
                     m_lsystem := setup_rules (tree_type (validate params))\<rparr>,
                 snd (resolve_seed dev params))"
proof -
  let ?seed = "fst (resolve_seed dev params)"
  let ?sk = "skeleton lib params ?seed"
  from structure_of_total[of lib params ?seed]
  obtain t where t: "structure_of lib params ?seed = Some t"
    by (elim exE conjE)
  then obtain wl rng3 where g: "generate_leaf_clusters lib (fst ?sk) (snd ?sk) = Some (wl, rng3)"
    and tw: "t = calculate_bounding_box wl"
    by (auto simp: structure_of_def)
  obtain pb where pb: "render t = Some pb" using render_total by blast
  have "generate lib gen dev params
      = (case generate_leaf_clusters lib (fst ?sk) (snd ?sk) of None \<Rightarrow> None
         | Some (with_leaves, rng3) \<Rightarrow>
            (case render (calculate_bounding_box with_leaves) of None \<Rightarrow> None
             | Some pixel_buffer \<Rightarrow>
                 Some ((pixel_buffer, metadata_of (calculate_bounding_box with_leaves) ?seed),
                       gen\<lparr>m_rng := rng3, m_lsystem := setup_rules (tree_type (validate params))\<rparr>,
                       snd (resolve_seed dev params))))"
    by (simp add: generate_def skeleton_def resolve_seed_def Let_def split_def
        cong: option.case_cong)
  with g tw pb t show ?thesis by simp
qed

subsection \<open>Determinism\<close>

lemma resolve_seed_nonzero:
  "TreeParameters.random_seed params \<noteq> 0 \<Longrightarrow> resolve_seed dev params = (TreeParameters.random_seed params, dev)"
  by (simp add: resolve_seed_def)

text \<open>
  Claim C1. For every parameter set whose \<open>random_seed\<close> is not 0, two calls of
  \<open>generate\<close>, on any two generators in any state and with any state of the random
  device, both return, with the same pixel buffer and the same metadata (branch count,
  leaf count, max depth, bounding box and seed), and neither reads the random device.
\<close>

theorem generate_deterministic:
  assumes "TreeParameters.random_seed params \<noteq> 0"
  shows "\<exists>pixels metadata gen1' gen2'.
           generate lib gen1 dev1 params = Some ((pixels, metadata), gen1', dev1)
         \<and> generate lib gen2 dev2 params = Some ((pixels, metadata), gen2', dev2)"
proof -
  let ?seed = "TreeParameters.random_seed params"
  from generate_result[of lib params dev1 gen1] assms
  obtain t1 pb1 g1 where a: "structure_of lib params ?seed = Some t1" "render t1 = Some pb1"
    "generate lib gen1 dev1 params = Some ((pb1, metadata_of t1 ?seed), g1, dev1)"
    by (auto simp: resolve_seed_nonzero)
  from generate_result[of lib params dev2 gen2] assms
  obtain t2 pb2 g2 where b: "structure_of lib params ?seed = Some t2" "render t2 = Some pb2"
    "generate lib gen2 dev2 params = Some ((pb2, metadata_of t2 ?seed), g2, dev2)"
    by (auto simp: resolve_seed_nonzero)
  from a b have "t1 = t2" "pb1 = pb2" by simp_all
  with a(3) b(3) show ?thesis by blast
qed

text \<open>
  The hypothesis holds for the oak preset with seed 12345, on a generator as the
  constructor leaves it and on one whose rule table was set up for another tree type.
\<close>

theorem generate_deterministic_witness:
  "\<exists>pixels metadata gen1' gen2'.
      generate (constant_draws (1 / 2)) (fresh_generator (constant_draws (1 / 2))) no_entropy
          (oak\<lparr>TreeParameters.random_seed := 12345\<rparr>)
        = Some ((pixels, metadata), gen1', no_entropy)
    \<and> generate (constant_draws (1 / 2)) \<lparr>m_rng = (), m_lsystem = setup_rules Pine\<rparr> (\<lambda>n. 7)
          (oak\<lparr>TreeParameters.random_seed := 12345\<rparr>)
        = Some ((pixels, metadata), gen2', \<lambda>n. 7)"
  using generate_deterministic [of "oak\<lparr>TreeParameters.random_seed := 12345\<rparr>"
      "constant_draws (1 / 2)" "fresh_generator (constant_draws (1 / 2))" no_entropy
      "\<lparr>m_rng = (), m_lsystem = setup_rules Pine\<rparr>" "\<lambda>n. 7"]
  by simp


subsection \<open>What \<open>generate\<close> returns\<close>

lemma generate_metadata:
  "\<exists>pixels metadata gen' dev'.
      generate lib gen dev params = Some ((pixels, metadata), gen', dev')
    \<and> branch_count metadata
        = count_list (fst (generate_string lib (validate params)
                              (Random lib (fst (resolve_seed dev params))))) CHR ''F''
    \<and> (density (leaves (validate params)) \<le> 0
          \<or> (\<forall>s. \<not> fst (uniform_real lib s) < density (leaves (validate params)))
        \<longrightarrow> leaf_count metadata = 0)"
proof -
  let ?seed = "fst (resolve_seed dev params)"
  from generate_result[of lib params dev gen]
  obtain t pb g where t: "structure_of lib params ?seed = Some t"
    and g: "generate lib gen dev params = Some ((pb, metadata_of t ?seed), g, snd (resolve_seed dev params))"
    by (elim exE conjE)
  from structure_of_total[of lib params ?seed] t
  have "length (all_branches t)
      = count_list (fst (generate_string lib (validate params) (Random lib ?seed))) CHR ''F''"
    and "density (leaves (validate params)) \<le> 0
          \<or> (\<forall>s. \<not> fst (uniform_real lib s) < density (leaves (validate params)))
        \<longrightarrow> leaf_clusters t = []"
    by simp_all
  then have "branch_count (metadata_of t ?seed)
        = count_list (fst (generate_string lib (validate params) (Random lib ?seed))) CHR ''F''"
    and "density (leaves (validate params)) \<le> 0
          \<or> (\<forall>s. \<not> fst (uniform_real lib s) < density (leaves (validate params)))
        \<longrightarrow> leaf_count (metadata_of t ?seed) = 0"
    by (simp_all add: metadata_of_def tree_branch_count_def tree_leaf_cluster_count_def)
  with g show ?thesis by blast
qed

lemma validate_density_zero:
  "density (leaves params) = 0 \<Longrightarrow> density (leaves (validate params)) = 0"
  by (simp add: validate_def validate_type_def validate_growth_def validate_season_def Let_def
      BoundedFloat01_def clamp_def split: TreeType.split)

lemma validate_dead_density:
  "density (leaves (validate (dead\<lparr>TreeParameters.random_seed := seed\<rparr>))) = 0"
  by (simp add: validate_def validate_type_def validate_growth_def validate_season_def Let_def
      dead_def default_TreeParameters_def BoundedFloat01_def clamp_def)

text \<open>
  Claim C5. For every seed (0 included), \<open>generate\<close> called with the dead preset returns
  metadata whose \<open>leaf_count\<close> is 0; and for every parameter set whose leaf density is 0,
  \<open>generate\<close> returns metadata whose \<open>leaf_count\<close> is 0.
\<close>

theorem dead_has_no_leaves:
  "(\<exists>pixels metadata gen' dev'.
       generate lib gen dev (dead\<lparr>TreeParameters.random_seed := seed\<rparr>) = Some ((pixels, metadata), gen', dev')
     \<and> leaf_count metadata = 0)
   \<and> (density (leaves params) = 0 \<longrightarrow>
        (\<exists>pixels metadata gen' dev'.
           generate lib gen dev params = Some ((pixels, metadata), gen', dev')
         \<and> leaf_count metadata = 0))"
proof
  from generate_metadata[of lib gen dev "dead\<lparr>TreeParameters.random_seed := seed\<rparr>"]
  show "\<exists>pixels metadata gen' dev'.
       generate lib gen dev (dead\<lparr>TreeParameters.random_seed := seed\<rparr>) = Some ((pixels, metadata), gen', dev')
     \<and> leaf_count metadata = 0"
    by (simp only: validate_dead_density) auto
next
  show "density (leaves params) = 0 \<longrightarrow>
        (\<exists>pixels metadata gen' dev'.
           generate lib gen dev params = Some ((pixels, metadata), gen', dev')
         \<and> leaf_count metadata = 0)"
  proof
    assume "density (leaves params) = 0"
    then have "density (leaves (validate params)) = 0" by (rule validate_density_zero)
    with generate_metadata[of lib gen dev params] show "\<exists>pixels metadata gen' dev'.
           generate lib gen dev params = Some ((pixels, metadata), gen', dev')
         \<and> leaf_count metadata = 0"
      by auto
  qed
qed

text \<open>
  The oak preset with its leaf density set to 0 satisfies the hypothesis.
\<close>

theorem dead_has_no_leaves_witness:
  "\<exists>pixels metadata gen' dev'.
      generate (constant_draws 0) (fresh_generator (constant_draws 0)) no_entropy
        (oak\<lparr>leaves := (leaves oak)\<lparr>density := 0\<rparr>\<rparr>) = Some ((pixels, metadata), gen', dev')
    \<and> leaf_count metadata = 0"
  using dead_has_no_leaves [of "constant_draws 0" "fresh_generator (constant_draws 0)" no_entropy 0
      "oak\<lparr>leaves := (leaves oak)\<lparr>density := 0\<rparr>\<rparr>"]
  by simp

subsection \<open>Presets with leaves\<close>

lemma preset_seed:
  "validate (params\<lparr>TreeParameters.random_seed := seed\<rparr>)
     = (validate params)\<lparr>TreeParameters.random_seed := seed\<rparr>"
  by (simp add: validate_def validate_type_def validate_growth_def validate_season_def Let_def
      split: TreeType.split)

text \<open>
  The half of the property that holds: for every seed, \<open>generate\<close> called with the oak,
  the pine or the palm preset returns metadata with \<open>branch_count > 0\<close>. A cluster is
  placed on a leaf branch only when the draw made for that branch is below the leaf
  density, and with an engine none of whose draws is below the density \<open>leaf_count\<close> is 0.
\<close>

theorem living_presets_have_branches:
  assumes "preset = oak \<or> preset = pine \<or> preset = palm"
  shows "\<exists>pixels metadata gen' dev'.
           generate lib gen dev (preset\<lparr>TreeParameters.random_seed := seed\<rparr>)
             = Some ((pixels, metadata), gen', dev')
         \<and> 0 < branch_count metadata
         \<and> ((\<forall>s. \<not> fst (uniform_real lib s) < density (leaves (validate preset)))
              \<longrightarrow> leaf_count metadata = 0)"
proof -
  let ?p = "preset\<lparr>TreeParameters.random_seed := seed\<rparr>"
  have d: "density (leaves (validate ?p)) = density (leaves (validate preset))"
    by (simp add: preset_seed)
  from generate_metadata[of lib gen dev ?p]
  obtain pixels metadata gen' dev' where g: "generate lib gen dev ?p = Some ((pixels, metadata), gen', dev')"
    and b: "branch_count metadata
        = count_list (fst (generate_string lib (validate ?p) (Random lib (fst (resolve_seed dev ?p))))) CHR ''F''"
    and l: "density (leaves (validate ?p)) \<le> 0
          \<or> (\<forall>s. \<not> fst (uniform_real lib s) < density (leaves (validate ?p)))
        \<longrightarrow> leaf_count metadata = 0"
    by (elim exE conjE)
  from b have "0 < branch_count metadata" by (simp add: generate_string_has_F)
  with g l d show ?thesis by auto
qed

lemma validate_oak_density: "density (leaves (validate (oak :: rat TreeParameters))) = 9 / 10"
  by (simp add: validate_def validate_type_def validate_growth_def validate_season_def Let_def
      oak_def default_TreeParameters_def default_LeafParameters_def BoundedFloat01_def clamp_def)

theorem living_presets_have_branches_witness:
  "\<exists>pixels metadata gen' dev'.
      generate (constant_draws (19 / 20)) (fresh_generator (constant_draws (19 / 20))) no_entropy
         (oak\<lparr>TreeParameters.random_seed := 1\<rparr>)
        = Some ((pixels, metadata), gen', dev')
    \<and> 0 < branch_count metadata \<and> leaf_count metadata = 0"
  using living_presets_have_branches [of oak "constant_draws (19 / 20)"
      "fresh_generator (constant_draws (19 / 20))" no_entropy 1]
  by (simp add: validate_oak_density constant_draws_def)

lemma place_cluster_count:
  "length (leaf_clusters (fst (place_cluster lib acc b))) \<le> Suc (length (leaf_clusters (fst acc)))"
  by (simp add: place_cluster_def Let_def split_def)

lemma place_clusters_count:
  "length (leaf_clusters (fst (foldl (place_cluster lib) acc bs)))
     \<le> length (leaf_clusters (fst acc)) + length bs"
proof (induction bs arbitrary: acc)
  case Nil
  then show ?case by simp
next
  case (Cons b bs)
  have "length (leaf_clusters (fst (foldl (place_cluster lib) (place_cluster lib acc b) bs)))
      \<le> length (leaf_clusters (fst (place_cluster lib acc b))) + length bs"
    by (rule Cons.IH)
  with place_cluster_count[of lib acc b] show ?case by simp
qed

lemma skeleton_one_leaf_branch:
  "\<exists>ls. get_leaf_branches (fst (skeleton lib params seed)) = Some ls \<and> length ls \<le> 1"
proof -
  let ?g = "generate_string lib (validate params) (Random lib seed)"
  have "fst (skeleton lib params seed) = fst (string_to_tree lib (fst ?g) (validate params) (snd ?g))"
    by (simp add: skeleton_def Let_def split_def)
  with string_to_tree_chained[of lib "fst ?g" "validate params" "snd ?g"]
  have "linked (all_branches (fst (skeleton lib params seed)))"
    "root (fst (skeleton lib params seed))
       = (if all_branches (fst (skeleton lib params seed)) = [] then None else Some 0)"
    by simp_all
  from get_leaf_branches_linked[OF this] show ?thesis by simp
qed

lemma structure_of_one_cluster:
  "\<exists>t. structure_of lib params seed = Some t \<and> length (leaf_clusters t) \<le> 1"
proof -
  let ?sk = "skeleton lib params seed"
  obtain ls where ls: "get_leaf_branches (fst ?sk) = Some ls" and one: "length ls \<le> 1"
    using skeleton_one_leaf_branch by blast
  show ?thesis
  proof (cases "density (leaves (validate params)) \<le> 0")
    case True
    then show ?thesis
      by (simp add: structure_of_def generate_leaf_clusters_def skeleton_parameters skeleton_clusters)
  next
    case False
    let ?r = "foldl (place_cluster lib) (fst ?sk, snd ?sk) ls"
    from False ls have g: "generate_leaf_clusters lib (fst ?sk) (snd ?sk) = Some ?r"
      by (simp add: generate_leaf_clusters_def skeleton_parameters)
    have "length (leaf_clusters (fst ?r)) \<le> length ls"
      using place_clusters_count[of lib "(fst ?sk, snd ?sk)" ls] by (simp add: skeleton_clusters)
    with one g show ?thesis by (simp add: structure_of_def)
  qed
qed

lemma generate_one_cluster:
  "\<exists>pixels metadata gen' dev'.
      generate lib gen dev params = Some ((pixels, metadata), gen', dev') \<and> leaf_count metadata \<le> 1"
proof -
  let ?seed = "fst (resolve_seed dev params)"
  from generate_result[of lib params dev gen]
  obtain t pb g where t: "structure_of lib params ?seed = Some t"
    and g: "generate lib gen dev params = Some ((pb, metadata_of t ?seed), g, snd (resolve_seed dev params))"
    by (elim exE conjE)
  from structure_of_one_cluster[of lib params ?seed] t
  have "leaf_count (metadata_of t ?seed) \<le> 1"
    by (simp add: metadata_of_def tree_leaf_cluster_count_def)
  with g show ?thesis by blast
qed

lemma validate_preset_density:
  "density (leaves (validate (oak\<lparr>TreeParameters.random_seed := seed\<rparr> :: rat TreeParameters))) = 9 / 10"
  "density (leaves (validate (pine\<lparr>TreeParameters.random_seed := seed\<rparr> :: rat TreeParameters))) = 3 / 5"
  "density (leaves (validate (palm\<lparr>TreeParameters.random_seed := seed\<rparr> :: rat TreeParameters))) = 2 / 5"
  by (simp_all add: validate_def validate_type_def validate_growth_def validate_season_def Let_def
      oak_def pine_def palm_def default_TreeParameters_def default_LeafParameters_def
      BoundedFloat01_def clamp_def)

lemma no_draw_no_leaf:
  assumes "density (leaves (validate params)) < 19 / 20"
  shows "map_option (leaf_count \<circ> snd \<circ> fst)
     (generate (constant_draws (19 / 20)) gen dev params) = Some 0"
  using generate_metadata[of "constant_draws (19 / 20)" gen dev params] assms
  by (auto simp: constant_draws_def)

lemma pruned_tree_leaf_branches:
  "get_leaf_branches (fst (string_to_tree lib ''F[+F[+F][-F]][-F]'' params rng0)) = Some [4]"
proof -
  let ?t = "fst (string_to_tree lib ''F[+F[+F][-F]][-F]'' params rng0)"
  have n: "length (all_branches ?t) = 5" by (simp add: string_to_tree_branches)
  from string_to_tree_chained[of lib "''F[+F[+F][-F]][-F]''" params rng0]
  have "linked (all_branches ?t)" "root ?t = (if all_branches ?t = [] then None else Some 0)"
    by simp_all
  from get_leaf_branches_linked[OF this] n show ?thesis by auto
qed

lemma pruned_tree_clusters:
  "generate_leaf_clusters (scripted_draws [])
      (fst (string_to_tree (scripted_draws []) ''F[+F[+F][-F]][-F]'' (validate oak) [])) [19 / 20, 0, 0]
     = Some (fst (string_to_tree (scripted_draws []) ''F[+F[+F][-F]][-F]'' (validate oak) []), [0, 0])"
  by (simp add: generate_leaf_clusters_def string_to_tree_parameters validate_oak_density
      pruned_tree_leaf_branches place_cluster_def next_float_def scripted_draws_def)

text \<open>
  Claim C6 fails in the code. \<open>generate_leaf_clusters\<close> draws one number for each leaf
  branch (a branch without children) and places a cluster when the draw is below the
  leaf density. Because \<open>]\<close> leaves \<open>current_branch\<close> as it is, every branch but the last
  has the next one as its only child: the tree has one leaf branch, whatever the string.
  So \<open>leaf_count\<close> is at most 1 for every input, and it is 0 as soon as that single draw
  is not below the density (\<open>9 / 10\<close> for the oak, \<open>3 / 5\<close> for the pine, \<open>2 / 5\<close> for the
  palm, after \<open>validate\<close>): with an engine all of whose draws are \<open>19 / 20\<close>, \<open>generate\<close>
  returns \<open>leaf_count = 0\<close> for the three presets. In the tree of the string
  \<open>F[+F[+F][-F]][-F]\<close>, which has five branches and three branch tips, the only leaf
  branch is the fifth; with the draws \<open>19 / 20, 0, 0\<close> at hand \<open>generate_leaf_clusters\<close>
  uses the first one, places nothing and leaves the two draws that are below the density
  unused.
\<close>

theorem presets_without_leaves:
  "map_option (leaf_count \<circ> snd \<circ> fst)
     (generate (constant_draws (19 / 20)) (fresh_generator (constant_draws (19 / 20))) no_entropy
        (oak\<lparr>TreeParameters.random_seed := 1\<rparr>)) = Some 0
   \<and> map_option (leaf_count \<circ> snd \<circ> fst)
     (generate (constant_draws (19 / 20)) (fresh_generator (constant_draws (19 / 20))) no_entropy
        (pine\<lparr>TreeParameters.random_seed := 1\<rparr>)) = Some 0
   \<and> map_option (leaf_count \<circ> snd \<circ> fst)
     (generate (constant_draws (19 / 20)) (fresh_generator (constant_draws (19 / 20))) no_entropy
        (palm\<lparr>TreeParameters.random_seed := 1\<rparr>)) = Some 0
   \<and> length (all_branches
        (fst (string_to_tree (scripted_draws []) ''F[+F[+F][-F]][-F]'' (validate oak) []))) = 5
   \<and> get_leaf_branches (fst (string_to_tree (scripted_draws []) ''F[+F[+F][-F]][-F]'' (validate oak) []))
       = Some [4]
   \<and> generate_leaf_clusters (scripted_draws [])
        (fst (string_to_tree (scripted_draws []) ''F[+F[+F][-F]][-F]'' (validate oak) [])) [19 / 20, 0, 0]
       = Some (fst (string_to_tree (scripted_draws []) ''F[+F[+F][-F]][-F]'' (validate oak) []), [0, 0])
   \<and> (\<exists>pixels metadata gen' dev'.
        generate lib gen dev params = Some ((pixels, metadata), gen', dev') \<and> leaf_count metadata \<le> 1)"
  using generate_one_cluster[of lib gen dev params]
  by (simp add: no_draw_no_leaf validate_preset_density pruned_tree_leaf_branches
      pruned_tree_clusters string_to_tree_branches)

subsection \<open>The branch limit\<close>

lemma validate_oak_branching:
  "branch_probability (branches (validate (oak\<lparr>TreeParameters.random_seed := seed\<rparr> :: rat TreeParameters))) = 8 / 10
   \<and> BranchParameters.max_depth (branches (validate (oak\<lparr>TreeParameters.random_seed := seed\<rparr> :: rat TreeParameters))) = 5
   \<and> max_branches (branches (validate (oak\<lparr>TreeParameters.random_seed := seed\<rparr> :: rat TreeParameters))) = 32"
  by (simp add: validate_def validate_type_def validate_growth_def validate_season_def Let_def
      oak_def default_TreeParameters_def default_BranchParameters_def BoundedFloat01_def clamp_def)

lemma validate_sure_oak_branching:
  "branch_probability (branches (validate
       (oak\<lparr>branches := (branches oak)\<lparr>branch_probability := BoundedFloat01 1\<rparr>\<rparr> :: rat TreeParameters))) = 1
   \<and> BranchParameters.max_depth (branches (validate
       (oak\<lparr>branches := (branches oak)\<lparr>branch_probability := BoundedFloat01 1\<rparr>\<rparr> :: rat TreeParameters))) = 5
   \<and> max_branches (branches (validate
       (oak\<lparr>branches := (branches oak)\<lparr>branch_probability := BoundedFloat01 1\<rparr>\<rparr> :: rat TreeParameters))) = 32"
  by (simp add: validate_def validate_type_def validate_growth_def validate_season_def Let_def
      oak_def default_TreeParameters_def default_BranchParameters_def BoundedFloat01_def clamp_def)

text \<open>
  Claim C4 fails on the code: \<open>max_branches\<close> is never read. For the oak preset
  (\<open>max_depth\<close> 5, \<open>branch_probability\<close> \<open>8 / 10\<close>, \<open>max_branches\<close> 32) and an engine
  whose draws are all 0, every \<open>F\<close> is rewritten in each of the 5 passes and \<open>generate\<close>
  returns \<open>branch_count = 3^5 = 243\<close>. With the branch probability of the oak preset set
  to 1 the same happens whatever the engine draws below 1, here \<open>1 / 2\<close>, with the seed
  taken from the random device.
\<close>

theorem oak_exceeds_max_branches:
  "map_option (branch_count \<circ> snd \<circ> fst)
     (generate (constant_draws 0) (fresh_generator (constant_draws 0)) no_entropy
        (oak\<lparr>TreeParameters.random_seed := 1\<rparr>)) = Some 243
   \<and> max_branches (branches (validate (oak\<lparr>TreeParameters.random_seed := 1\<rparr> :: rat TreeParameters))) = 32
   \<and> map_option (branch_count \<circ> snd \<circ> fst)
     (generate (constant_draws (1 / 2)) (fresh_generator (constant_draws (1 / 2))) no_entropy
        (oak\<lparr>branches := (branches oak)\<lparr>branch_probability := BoundedFloat01 1\<rparr>\<rparr>)) = Some 243
   \<and> max_branches (branches (validate
        (oak\<lparr>branches := (branches oak)\<lparr>branch_probability := BoundedFloat01 1\<rparr>\<rparr> :: rat TreeParameters))) = 32"
proof -
  let ?p = "oak\<lparr>TreeParameters.random_seed := 1\<rparr> :: rat TreeParameters"
  let ?lib = "constant_draws 0"
  have "\<And>s. fst (uniform_real ?lib s) < branch_probability (branches (validate ?p))"
    by (simp add: validate_oak_branching constant_draws_def)
  from generate_string_count_all[of ?lib "validate ?p", OF this]
  have "count_list (fst (generate_string ?lib (validate ?p) rng0)) CHR ''F'' = 243" for rng0
    by (simp add: validate_oak_branching)
  with generate_metadata[of ?lib "fresh_generator ?lib" no_entropy ?p]
  have 1: "map_option (branch_count \<circ> snd \<circ> fst) (generate ?lib (fresh_generator ?lib) no_entropy ?p)
      = Some 243"
    by auto
  let ?q = "oak\<lparr>branches := (branches oak)\<lparr>branch_probability := BoundedFloat01 1\<rparr>\<rparr> :: rat TreeParameters"
  let ?half = "constant_draws (1 / 2)"
  have "\<And>s. fst (uniform_real ?half s) < branch_probability (branches (validate ?q))"
    by (simp add: validate_sure_oak_branching constant_draws_def)
  from generate_string_count_all[of ?half "validate ?q", OF this]
  have "count_list (fst (generate_string ?half (validate ?q) rng0)) CHR ''F'' = 243" for rng0
    by (simp add: validate_sure_oak_branching)
  with generate_metadata[of ?half "fresh_generator ?half" no_entropy ?q]
  have 2: "map_option (branch_count \<circ> snd \<circ> fst) (generate ?half (fresh_generator ?half) no_entropy ?q)
      = Some 243"
    by auto
  from 1 2 show ?thesis by (simp add: validate_oak_branching validate_sure_oak_branching)
qed

subsection \<open>Batches\<close>

lemma generate_any_generator:
  "\<exists>r. \<forall>g. \<exists>g'. generate lib g dev params = Some (r, g', snd (resolve_seed dev params))"
proof -
  from generate_result[of lib params dev undefined]
  obtain t pb where t: "structure_of lib params (fst (resolve_seed dev params)) = Some t"
    and pb: "render t = Some pb"
    by (elim exE conjE)
  have "\<exists>g'. generate lib g dev params
      = Some ((pb, metadata_of t (fst (resolve_seed dev params))), g', snd (resolve_seed dev params))" for g
    using generate_result[of lib params dev g] t pb by auto
  then show ?thesis by blast
qed

lemma generate_batch_loop_spec:
  "\<exists>rs gen' dev'.
      generate_batch_loop lib gen dev ps acc = Some (acc @ rs, gen', dev')
    \<and> length rs = length ps
    \<and> (\<forall>i < length ps. \<forall>g. \<exists>g' d'.
          generate lib g (device_after dev (take i ps)) (ps ! i) = Some (rs ! i, g', d'))"
proof (induction ps arbitrary: gen dev acc)
  case Nil
  then show ?case by simp
next
  case (Cons p ps)
  from generate_any_generator[of lib dev p]
  obtain r where r: "\<And>g. \<exists>g'. generate lib g dev p = Some (r, g', snd (resolve_seed dev p))"
    by blast
  then obtain gen1 where g1: "generate lib gen dev p = Some (r, gen1, snd (resolve_seed dev p))"
    by blast
  from Cons.IH[of gen1 "snd (resolve_seed dev p)" "acc @ [r]"]
  obtain rs gen' dev' where
    l: "generate_batch_loop lib gen1 (snd (resolve_seed dev p)) ps (acc @ [r]) = Some ((acc @ [r]) @ rs, gen', dev')"
    and n: "length rs = length ps"
    and e: "\<forall>i < length ps. \<forall>g. \<exists>g' d'.
          generate lib g (device_after (snd (resolve_seed dev p)) (take i ps)) (ps ! i) = Some (rs ! i, g', d')"
    by blast
  have "\<forall>g. \<exists>g' d'. generate lib g (device_after dev (take i (p # ps))) ((p # ps) ! i)
           = Some ((r # rs) ! i, g', d')" if "i < length (p # ps)" for i
  proof (cases i)
    case 0
    have "\<exists>g' d'. generate lib g dev p = Some (r, g', d')" for g
      using r[of g] by blast
    with 0 show ?thesis by simp
  next
    case (Suc k)
    with that e show ?thesis by simp
  qed
  with g1 l n show ?case by auto
qed

lemma generate_nonzero_seed:
  assumes "TreeParameters.random_seed params \<noteq> 0"
  shows "\<exists>r. \<forall>g d. \<exists>g'. generate lib g d params = Some (r, g', d)"
proof -
  let ?seed = "TreeParameters.random_seed params"
  from generate_result[of lib params undefined undefined] assms
  obtain t pb where t: "structure_of lib params ?seed = Some t" and pb: "render t = Some pb"
    by (auto simp: resolve_seed_nonzero)
  have "\<exists>g'. generate lib g d params = Some ((pb, metadata_of t ?seed), g', d)" for g d
    using generate_result[of lib params d g] t pb assms by (auto simp: resolve_seed_nonzero)
  then show ?thesis by blast
qed

text \<open>
  Claim C9, as the code has it. For every list of parameter sets, \<open>generate_batch\<close>
  returns, with as many results as the list has elements, in the order of the list. For
  an element whose seed is not 0, the \<open>i\<close>-th result (the pixel buffer, and the metadata
  without \<open>generation_time_ms\<close>, which is a measured time and not part of the model) is
  what \<open>generate\<close> returns for that element, called on a generator in any state and with
  the random device in any state. For an element whose seed is 0, \<open>generate\<close> reads its
  seed from \<open>std::random_device\<close>: the \<open>i\<close>-th result is what \<open>generate\<close> returns for
  that element when the device hands it the value that it handed the batch, that is
  with the device as the first \<open>i\<close> elements left it.
\<close>

theorem generate_batch_elementwise:
  "\<exists>results gen' dev'.
      generate_batch lib gen dev params_list = Some (results, gen', dev')
    \<and> length results = length params_list
    \<and> (\<forall>i < length params_list. \<forall>g. \<exists>g' d'.
          generate lib g (device_after dev (take i params_list)) (params_list ! i)
            = Some (results ! i, g', d'))
    \<and> (\<forall>i < length params_list. TreeParameters.random_seed (params_list ! i) \<noteq> 0 \<longrightarrow>
          (\<forall>g d. \<exists>g'. generate lib g d (params_list ! i) = Some (results ! i, g', d)))"
proof -
  from generate_batch_loop_spec[of lib gen dev params_list "[]"]
  obtain results gen' dev' where
    b: "generate_batch lib gen dev params_list = Some (results, gen', dev')"
    and n: "length results = length params_list"
    and e: "\<forall>i < length params_list. \<forall>g. \<exists>g' d'.
          generate lib g (device_after dev (take i params_list)) (params_list ! i)
            = Some (results ! i, g', d')"
    by (auto simp: generate_batch_def)
  have "\<forall>g d. \<exists>g'. generate lib g d (params_list ! i) = Some (results ! i, g', d)"
    if i: "i < length params_list" and s: "TreeParameters.random_seed (params_list ! i) \<noteq> 0" for i
  proof -
    from generate_nonzero_seed[OF s, of lib]
    obtain r where r: "\<And>g d. \<exists>g'. generate lib g d (params_list ! i) = Some (r, g', d)"
      by blast
    from e i obtain g' d' where
      "generate lib gen (device_after dev (take i params_list)) (params_list ! i)
         = Some (results ! i, g', d')"
      by blast
    with r[of gen "device_after dev (take i params_list)"] have "r = results ! i" by auto
    with r show ?thesis by simp
  qed
  with b n e show ?thesis by blast
qed

text \<open>
  A batch of two, the second with seed 0, against calls on a generator of its own.
\<close>

theorem generate_batch_elementwise_witness:
  "\<exists>results gen' dev'.
      generate_batch (constant_draws (1 / 2)) (fresh_generator (constant_draws (1 / 2))) no_entropy
          [oak\<lparr>TreeParameters.random_seed := 1000\<rparr>, pine] = Some (results, gen', dev')
    \<and> length results = 2
    \<and> (\<exists>g'. generate (constant_draws (1 / 2)) \<lparr>m_rng = (), m_lsystem = Map.empty\<rparr> (\<lambda>n. 7)
                   (oak\<lparr>TreeParameters.random_seed := 1000\<rparr>) = Some (results ! 0, g', \<lambda>n. 7))
    \<and> (\<exists>g' d'. generate (constant_draws (1 / 2)) \<lparr>m_rng = (), m_lsystem = Map.empty\<rparr>
                   (device_after no_entropy [oak\<lparr>TreeParameters.random_seed := 1000\<rparr> :: rat TreeParameters])
                   pine = Some (results ! 1, g', d'))"
proof -
  let ?lib = "constant_draws (1 / 2)"
  let ?ps = "[oak\<lparr>TreeParameters.random_seed := 1000\<rparr>, pine] :: rat TreeParameters list"
  let ?g = "\<lparr>m_rng = (), m_lsystem = Map.empty\<rparr> :: (unit, rat) TreeGenerator"
  from generate_batch_elementwise[of ?lib "fresh_generator ?lib" no_entropy ?ps]
  obtain results gen' dev' where
    b: "generate_batch ?lib (fresh_generator ?lib) no_entropy ?ps = Some (results, gen', dev')"
    and n: "length results = length ?ps"
    and e: "\<forall>i < length ?ps. \<forall>g. \<exists>g' d'.
          generate ?lib g (device_after no_entropy (take i ?ps)) (?ps ! i) = Some (results ! i, g', d')"
    and f: "\<forall>i < length ?ps. TreeParameters.random_seed (?ps ! i) \<noteq> 0 \<longrightarrow>
          (\<forall>g d. \<exists>g'. generate ?lib g d (?ps ! i) = Some (results ! i, g', d))"
    by blast
  have e0: "\<exists>g'. generate ?lib ?g (\<lambda>n. 7) (oak\<lparr>TreeParameters.random_seed := 1000\<rparr>)
      = Some (results ! 0, g', \<lambda>n. 7)"
    using f[rule_format, of 0 ?g "\<lambda>n. 7"] by simp
  have e1: "\<exists>g' d'. generate ?lib ?g
        (device_after no_entropy [oak\<lparr>TreeParameters.random_seed := 1000\<rparr> :: rat TreeParameters]) pine
      = Some (results ! 1, g', d')"
    using e[rule_format, of 1 ?g] by simp
  from n have n2: "length results = 2" by simp
  from b n2 e0 e1 show ?thesis by blast
qed

lemma seeded_strings:
  "count_list (fst (generate_string seeded_draws (validate oak)
      (Random seeded_draws (fst (resolve_seed no_entropy (oak :: rat TreeParameters)))))) CHR ''F'' = 3"
  "count_list (fst (generate_string seeded_draws (validate oak)
      (Random seeded_draws (fst (resolve_seed (\<lambda>n. 7) (oak :: rat TreeParameters)))))) CHR ''F'' = 1"
  by code_simp+

text \<open>
  The claim as stated, for every list, fails for an element whose seed is 0, when the
  random device hands the individual call another value than it handed the batch. With
  the engine \<open>seeded_draws\<close> and the list that holds the oak preset alone (its seed is 0),
  the batch, reading 0 from the device, returns a tree of 3 branches, and \<open>generate\<close>,
  reading 7 from the device, returns a tree of 1 branch.
\<close>

theorem batch_seed_zero_counterexample:
  "map_option (map (branch_count \<circ> snd) \<circ> fst)
      (generate_batch seeded_draws (fresh_generator seeded_draws) no_entropy [oak]) = Some [3]
   \<and> map_option (branch_count \<circ> snd \<circ> fst)
      (generate seeded_draws (fresh_generator seeded_draws) (\<lambda>n. 7) oak) = Some 1"
proof -
  from generate_metadata[of seeded_draws "fresh_generator seeded_draws" no_entropy oak]
  obtain pixels metadata gen' dev' where
    g: "generate seeded_draws (fresh_generator seeded_draws) no_entropy oak
          = Some ((pixels, metadata), gen', dev')"
    and b: "branch_count metadata = 3"
    by (auto simp: seeded_strings)
  from g b have "map_option (map (branch_count \<circ> snd) \<circ> fst)
      (generate_batch seeded_draws (fresh_generator seeded_draws) no_entropy [oak]) = Some [3]"
    by (simp add: generate_batch_def)
  moreover from generate_metadata[of seeded_draws "fresh_generator seeded_draws" "\<lambda>n. 7" oak]
  have "map_option (branch_count \<circ> snd \<circ> fst)
      (generate seeded_draws (fresh_generator seeded_draws) (\<lambda>n. 7) oak) = Some 1"
    by (auto simp: seeded_strings)
  ultimately show ?thesis by simp
qed

subsection \<open>Depth levels\<close>

lemma map_update_same: "(map f xs)[i := f (xs ! i)] = map f xs"
  by (metis list_update_id map_update)

lemma forward_depths:
  "map depth_level (all_branches (tree (forward params it)))
     = map depth_level (all_branches (tree it)) @ [depth (current_state it)]"
  by (simp add: forward_def Let_def split_def Branch_new_def map_update map_update_same
      split: option.split)

lemma forward_state: "depth (current_state (forward params it)) = depth (current_state it)"
  by (simp add: forward_def Let_def split_def split: option.split)

lemma symbol_depth:
  "c \<noteq> CHR '']'' \<Longrightarrow> depth (current_state (symbol lib params c it)) = depth (current_state it)"
  by (simp add: symbol_def forward_state turn_def Let_def split_def)

lemma step_depth:
  "c \<noteq> CHR '']'' \<Longrightarrow> depth (current_state (step lib params it c)) = depth (current_state it) + 1"
  by (simp add: step_def decay_def Let_def symbol_depth)

lemma step_depths:
  "map depth_level (all_branches (tree (step lib params it c)))
     = (if c = CHR ''F'' then map depth_level (all_branches (tree it)) @ [depth (current_state it)]
        else map depth_level (all_branches (tree it)))"
  by (simp add: tree_step forward_depths)

lemma run_depths_increasing:
  assumes "CHR '']'' \<notin> set s"
    and "sorted_wrt (<) (map depth_level (all_branches (tree it)))"
    and "\<forall>d \<in> set (map depth_level (all_branches (tree it))). d < depth (current_state it)"
  shows "sorted_wrt (<) (map depth_level (all_branches (tree (foldl (step lib params) it s))))"
  using assms
proof (induction s arbitrary: it)
  case Nil
  then show ?case by simp
next
  case (Cons c s)
  from Cons.prems(1) have c: "c \<noteq> CHR '']''" and s: "CHR '']'' \<notin> set s" by auto
  have 1: "sorted_wrt (<) (map depth_level (all_branches (tree (step lib params it c))))"
    using Cons.prems(2,3) by (auto simp: step_depths sorted_wrt_append)
  have 2: "\<forall>d \<in> set (map depth_level (all_branches (tree (step lib params it c)))).
             d < depth (current_state (step lib params it c))"
    using Cons.prems(3) c by (auto simp: step_depths step_depth)
  from Cons.IH[OF s 1 2] show ?case by simp
qed

lemma run_depths_F:
  assumes "set s \<subseteq> {CHR ''F''}"
    and "map depth_level (all_branches (tree it)) = map int [0 ..< length (all_branches (tree it))]"
    and "depth (current_state it) = int (length (all_branches (tree it)))"
  shows "map depth_level (all_branches (tree (foldl (step lib params) it s)))
       = map int [0 ..< length (all_branches (tree (foldl (step lib params) it s)))]"
  using assms
proof (induction s arbitrary: it)
  case Nil
  then show ?case by simp
next
  case (Cons c s)
  from Cons.prems(1) have c: "c = CHR ''F''" and s: "set s \<subseteq> {CHR ''F''}" by auto
  have n: "length (all_branches (tree (step lib params it c))) = Suc (length (all_branches (tree it)))"
    using c by (simp add: tree_step forward_branches)
  have 1: "map depth_level (all_branches (tree (step lib params it c)))
       = map int [0 ..< length (all_branches (tree (step lib params it c)))]"
    using Cons.prems(2,3) c by (simp add: tree_step forward_branches forward_depths)
  have 2: "depth (current_state (step lib params it c)) = int (length (all_branches (tree (step lib params it c))))"
    using Cons.prems(3) c by (simp add: step_depth tree_step forward_branches)
  from Cons.IH[OF s 1 2] show ?case by simp
qed

lemma string_to_tree_run:
  "fst (string_to_tree lib s params rng0) = tree (foldl (step lib params) (start_interpreter params rng0) s)"
  by (simp add: string_to_tree_def Let_def)

lemma start_empty: "all_branches (tree (start_interpreter params rng0)) = []"
  "depth (current_state (start_interpreter params rng0)) = 0"
  by (simp_all add: start_interpreter_def Let_def TreeStructure_new_def)

lemma linked_parent:
  assumes "linked bs" "c < length bs" "parent (bs ! c) = Some p"
  shows "c = Suc p"
  using assms by (cases c) (auto simp: linked_def)

lemma depth_levels_without_pop:
  assumes "c < length (all_branches (fst (string_to_tree lib lstring params rng0)))"
    and "parent (all_branches (fst (string_to_tree lib lstring params rng0)) ! c) = Some p"
  shows "(CHR '']'' \<notin> set lstring \<longrightarrow>
            depth_level (all_branches (fst (string_to_tree lib lstring params rng0)) ! p) + 1
              \<le> depth_level (all_branches (fst (string_to_tree lib lstring params rng0)) ! c))
       \<and> (set lstring \<subseteq> {CHR ''F''} \<longrightarrow>
            depth_level (all_branches (fst (string_to_tree lib lstring params rng0)) ! c)
              = depth_level (all_branches (fst (string_to_tree lib lstring params rng0)) ! p) + 1)"
proof -
  let ?bs = "all_branches (fst (string_to_tree lib lstring params rng0))"
  have "linked ?bs" using string_to_tree_chained[of lib lstring params rng0] by simp
  from linked_parent[OF this assms] have c: "c = Suc p" .
  with assms(1) have p: "p < length ?bs" by simp
  have a: "depth_level (?bs ! p) + 1 \<le> depth_level (?bs ! c)" if "CHR '']'' \<notin> set lstring"
  proof -
    from run_depths_increasing[OF that, of "start_interpreter params rng0" lib params]
    have "sorted_wrt (<) (map depth_level ?bs)"
      by (simp add: string_to_tree_run start_empty)
    from sorted_wrt_nth_less[OF this, of p c] c assms(1) p show ?thesis by simp
  qed
  have b: "depth_level (?bs ! c) = depth_level (?bs ! p) + 1" if "set lstring \<subseteq> {CHR ''F''}"
  proof -
    from run_depths_F[OF that, of "start_interpreter params rng0" lib params]
    have m: "map depth_level ?bs = map int [0 ..< length ?bs]"
      by (simp add: string_to_tree_run start_empty)
    have "depth_level (?bs ! i) = int i" if "i < length ?bs" for i
      using that nth_map[of i ?bs depth_level] m by simp
    from this[of c] this[of p] assms(1) p c show ?thesis by simp
  qed
  from a b show ?thesis by blast
qed






text \<open>
  Claim C2 fails on the code: \<open>]\<close> restores the saved state and leaves \<open>current_branch\<close>
  as it is, so the branch made after a pop becomes a child of the last branch of the
  side branch just left. For the oak preset (base thickness 2, decay \<open>4 / 5\<close>) and the
  string \<open>F[+F[+F][-F]][-F]\<close>, which \<open>generate_string\<close> returns when the first and the
  third draw are below the branch probability, the fifth branch is a child of the fourth
  and is thicker than it: \<open>2 * (4 / 5)^4\<close> against \<open>2 * (4 / 5)^7\<close>.
\<close>

theorem thickness_grows_after_pop:
  "generate_string (scripted_draws [0, 19 / 20, 0]) (validate oak)
       (Random (scripted_draws [0, 19 / 20, 0]) 1)
     = (''F[+F[+F][-F]][-F]'', [])
   \<and> parent (all_branches (fst (string_to_tree (scripted_draws [0, 19 / 20, 0])
         ''F[+F[+F][-F]][-F]'' (validate oak) [])) ! 4) = Some 3
   \<and> Branch.thickness (all_branches (fst (string_to_tree (scripted_draws [0, 19 / 20, 0])
         ''F[+F[+F][-F]][-F]'' (validate oak) [])) ! 3) = 2 * (4 / 5) ^ 7
   \<and> Branch.thickness (all_branches (fst (string_to_tree (scripted_draws [0, 19 / 20, 0])
         ''F[+F[+F][-F]][-F]'' (validate oak) [])) ! 4) = 2 * (4 / 5) ^ 4
   \<and> Branch.thickness (all_branches (fst (string_to_tree (scripted_draws [0, 19 / 20, 0])
         ''F[+F[+F][-F]][-F]'' (validate oak) [])) ! 3)
       < Branch.thickness (all_branches (fst (string_to_tree (scripted_draws [0, 19 / 20, 0])
         ''F[+F[+F][-F]][-F]'' (validate oak) [])) ! 4)"
  by code_simp

end
